theory Spec2Isabelle
  imports Main
begin

section \<open>Python values used by both engines\<close>

text \<open>
  Strings are byte lists, so the model covers ASCII text: \<open>str.lower\<close>, \<open>str.upper\<close> and
  \<open>str.strip\<close> are given on the ASCII letters and the ASCII white space that Python strips.
  The backslash of the Python literals is written \<open>CHR 0x5C\<close>.
\<close>

definition ascii_upper :: string where
  "ascii_upper = ''ABCDEFGHIJKLMNOPQRSTUVWXYZ''"

definition ascii_lower :: string where
  "ascii_lower = ''abcdefghijklmnopqrstuvwxyz''"

definition lower_char :: "char \<Rightarrow> char" where
  "lower_char c = (case map_of (zip ascii_upper ascii_lower) c of Some d \<Rightarrow> d | None \<Rightarrow> c)"

definition upper_char :: "char \<Rightarrow> char" where
  "upper_char c = (case map_of (zip ascii_lower ascii_upper) c of Some d \<Rightarrow> d | None \<Rightarrow> c)"

definition str_lower :: "string \<Rightarrow> string" where
  "str_lower s = map lower_char s"

definition str_upper :: "string \<Rightarrow> string" where
  "str_upper s = map upper_char s"

definition is_space :: "char \<Rightarrow> bool" where
  "is_space c = (c \<in> set [CHR 0x09, CHR 0x0A, CHR 0x0B, CHR 0x0C, CHR 0x0D,
                           CHR 0x1C, CHR 0x1D, CHR 0x1E, CHR 0x1F, CHR 0x20])"

definition str_strip :: "string \<Rightarrow> string" where
  "str_strip s = rev (dropWhile is_space (rev (dropWhile is_space s)))"

fun startswith :: "string \<Rightarrow> string \<Rightarrow> bool" where
  "startswith s [] = True"
| "startswith [] (p # ps) = False"
| "startswith (c # cs) (p # ps) = (c = p \<and> startswith cs ps)"

definition endswith :: "string \<Rightarrow> string \<Rightarrow> bool" where
  "endswith s p = startswith (rev s) (rev p)"

text \<open>\<open>str_contains s p\<close> is Python's \<open>p in s\<close> on strings.\<close>

fun str_contains :: "string \<Rightarrow> string \<Rightarrow> bool" where
  "str_contains [] p = (p = [])"
| "str_contains (c # cs) p = (startswith (c # cs) p \<or> str_contains cs p)"

definition digit_chars :: string where
  "digit_chars = ''0123456789''"

function str_nat :: "nat \<Rightarrow> string" where
  "str_nat n = (if n < 10 then [digit_chars ! n]
                else str_nat (n div 10) @ [digit_chars ! (n mod 10)])"
  by pat_completeness auto
termination
  by (relation "measure (\<lambda>n. n)") auto

definition str_int :: "int \<Rightarrow> string" where
  "str_int i = (if i < 0 then CHR ''-'' # str_nat (nat (- i)) else str_nat (nat i))"

text \<open>
  The values an attribute of a stored event can hold. \<open>PObj b r\<close> stands for a value of
  another Python type (a JSON document, a UUID), kept as its truth value and its \<open>str\<close>
  rendering.
\<close>

datatype pyval = PNone | PStr string | PInt int | PBool bool | PObj bool string

fun truthy :: "pyval \<Rightarrow> bool" where
  "truthy PNone = False"
| "truthy (PStr s) = (s \<noteq> [])"
| "truthy (PInt i) = (i \<noteq> 0)"
| "truthy (PBool b) = b"
| "truthy (PObj b r) = b"

fun py_str :: "pyval \<Rightarrow> string" where
  "py_str PNone = ''None''"
| "py_str (PStr s) = s"
| "py_str (PInt i) = str_int i"
| "py_str (PBool b) = (if b then ''True'' else ''False'')"
| "py_str (PObj b r) = r"

text \<open>An optional string read for its truth value: \<open>None\<close> and \<open>''\<close> are both false.\<close>

fun nonempty :: "string option \<Rightarrow> bool" where
  "nonempty None = False"
| "nonempty (Some s) = (s \<noteq> [])"

text \<open>Python's \<open>a or b\<close> on optional strings.\<close>

definition str_or :: "string option \<Rightarrow> string option \<Rightarrow> string option" where
  "str_or a b = (if nonempty a then a else b)"

datatype py_exn = FieldError | AttributeError | ValueError | TypeError | OverflowError | RegexError
  | PQLSyntaxError | PQLExecutionError | StoreError

text \<open>
  Instants and durations are counted in microseconds, the resolution of Python's
  \<open>datetime\<close>; an instant is the offset from the epoch.
\<close>

type_synonym instant = int

definition seconds :: "int \<Rightarrow> int" where
  "seconds n = n * 1000000"

definition minutes :: "int \<Rightarrow> int" where
  "minutes n = n * 60000000"

definition hours :: "int \<Rightarrow> int" where
  "hours n = n * 3600000000"

definition days :: "int \<Rightarrow> int" where
  "days n = n * 86400000000"

definition weeks :: "int \<Rightarrow> int" where
  "weeks n = n * 604800000000"

section \<open>Detection engine: data model\<close>

text \<open>
  \<open>SecurityEvent\<close> (apps/events/models.py). The columns the engine reads by name are
  fields of the record; the remaining columns are reached through \<open>attrs\<close>, as
  \<open>getattr(event, field, None)\<close> reaches them.
\<close>

record event =
  ev_pk :: int
  event_id :: int
  timestamp :: instant
  hostname :: string
  user_name :: "string option"
  target_user_name :: "string option"
  source_ip :: "string option"
  process_name :: "string option"
  service_name :: "string option"
  attrs :: "(string \<times> pyval) list"

definition opt_val :: "string option \<Rightarrow> pyval" where
  "opt_val v = (case v of None \<Rightarrow> PNone | Some s \<Rightarrow> PStr s)"

definition getattr_event :: "event \<Rightarrow> string \<Rightarrow> pyval" where
  "getattr_event ev f =
     (if f = ''id'' then PInt (ev_pk ev)
      else if f = ''event_id'' then PInt (event_id ev)
      else if f = ''hostname'' then PStr (hostname ev)
      else if f = ''user_name'' then opt_val (user_name ev)
      else if f = ''target_user_name'' then opt_val (target_user_name ev)
      else if f = ''source_ip'' then opt_val (source_ip ev)
      else if f = ''process_name'' then opt_val (process_name ev)
      else if f = ''service_name'' then opt_val (service_name ev)
      else (case map_of (attrs ev) f of None \<Rightarrow> PNone | Some v \<Rightarrow> v))"

text \<open>
  Modelled from the spec: the \<open>EntityTracker\<close> row of apps/detection/models.py, which is
  not among the sources. The spec gives its attributes: entity type and value, hostname
  scope, window bounds, \<open>event_counts\<close> (event id to occurrence count), \<open>unique_values\<close>
  (field name to the distinct values seen), \<open>event_ids\<close> (the contributing events, in
  order) and the time of the last event.
\<close>

record tracker =
  tr_pk :: nat
  entity_type :: string
  entity_value :: string
  tr_hostname :: string
  window_start :: instant
  window_end :: instant
  event_counts :: "(int \<times> int) list"
  unique_values :: "(string \<times> string list) list"
  event_ids :: "int list"
  last_event_time :: "instant option"

text \<open>The rule's \<open>logic\<close> document: every key is optional, as \<open>logic.get\<close> reads it.\<close>

datatype pattern = PList "string list" | PRegex string

record seq_step =
  step_event_ids :: "int option list option"
  step_event_id :: "int option"
  step_count :: "int option"

record logic =
  lg_event_ids :: "int list option"
  exclude_system_accounts :: "bool option"
  track_by :: "string option"
  window_minutes :: "int option"
  track_unique :: "string list option"
  threshold :: "int option"
  unique_threshold :: "(string \<times> int) option"
  sequence :: "seq_step list option"
  patterns :: "(string \<times> pattern) list option"
  required_matches :: "int option"
  required_events :: "int list option"
  min_counts :: "(int \<times> int) list option"

text \<open>
  Modelled from the spec: \<open>DetectionRule\<close>, \<open>DetectionAlert\<close> and
  \<open>AlertSuppressionRule\<close> of apps/detection/models.py (not among the sources), with the
  attributes the spec lists and the engine reads or writes. \<open>triggered_at\<close> is set by
  the store when the alert is created.
\<close>

record rule =
  rule_id :: string
  rule_name :: string
  severity :: string
  rule_type :: string
  rule_logic :: logic
  cooldown_minutes :: int
  min_confidence :: int
  total_alerts :: int

record evidence =
  evd_event_counts :: "(int \<times> int) list"
  evd_unique_values :: "(string \<times> string list) list"
  triggering_event_id :: int
  evd_window_minutes :: int
  matched_patterns :: "int option"

record alert =
  al_rule :: string
  title :: string
  description :: string
  al_severity :: string
  al_hostname :: string
  al_user_name :: string
  al_source_ip :: "string option"
  al_target_user :: string
  matched_events :: "int list"
  event_count :: int
  al_evidence :: evidence
  confidence :: int
  first_event_time :: instant
  al_last_event_time :: instant
  triggered_at :: instant

record suppression =
  sup_enabled :: bool
  detection_rule :: string
  expires_at :: "instant option"
  conditions :: "(string \<times> pattern) list"

text \<open>
  The stores the engine works on, and the rule cache \<open>self.rules\<close>. \<open>next_tracker_pk\<close>
  is the store's key sequence.
\<close>

record engine_state =
  trackers :: "tracker list"
  next_tracker_pk :: nat
  alerts :: "alert list"
  rules :: "rule list"
  suppressions :: "suppression list"

text \<open>
  What the engine takes from its environment: the wall clock \<open>timezone.now()\<close>, read
  once per call, the regular-expression library (\<open>re.match\<close> and \<open>re.search\<close> with
  \<open>re.IGNORECASE\<close>, which raise on a malformed pattern), and Python's rendering of a
  dictionary and of \<open>list(set(...))\<close> inside the alert descriptions.
\<close>

record env =
  now :: instant
  re_match :: "string \<Rightarrow> string \<Rightarrow> py_exn + bool"
  re_search :: "string \<Rightarrow> string \<Rightarrow> py_exn + bool"
  repr_counts :: "(int \<times> int) list \<Rightarrow> string"
  repr_id_set :: "int list \<Rightarrow> string"

section \<open>Detection engine: operations\<close>

definition SYSTEM_ACCOUNTS :: "string list" where
  "SYSTEM_ACCOUNTS =
     [''system'', ''local service'', ''network service'', ''anonymous logon'',
      ''nt authority'' @ [CHR 0x5C] @ ''system'',
      ''nt authority'' @ [CHR 0x5C] @ ''local service'',
      ''nt authority'' @ [CHR 0x5C] @ ''network service'',
      ''window manager'' @ [CHR 0x5C] @ ''dwm-1'',
      ''window manager'' @ [CHR 0x5C] @ ''dwm-2'',
      ''window manager'' @ [CHR 0x5C] @ ''dwm-3'',
      ''font driver host'' @ [CHR 0x5C] @ ''umfd-0'',
      ''font driver host'' @ [CHR 0x5C] @ ''umfd-1'',
      ''font driver host'' @ [CHR 0x5C] @ ''umfd-2'',
      ''font driver host'' @ [CHR 0x5C] @ ''umfd-3'',
      ''$'', ''-'', [], ''n/a'', ''none'',
      ''defaultaccount'', ''guest'', ''wdagutilityaccount'',
      ''svc_'', ''service_'', ''sql'', ''iis'', ''scom'', ''exchange'', ''backup'']"

definition NOISE_EVENT_IDS :: "int list" where
  "NOISE_EVENT_IDS = [4798, 4799, 5320, 5351, 5117, 4117, 5857, 7040]"

fun is_system_account :: "string option \<Rightarrow> bool" where
  "is_system_account None = True"
| "is_system_account (Some uname) =
     (if uname = [] then True
      else (let user_lower = str_strip (str_lower uname) in
        if user_lower \<in> set SYSTEM_ACCOUNTS then True
        else if endswith user_lower ''$'' then True
        else if startswith user_lower ''dwm-'' \<or> startswith user_lower ''umfd-'' then True
        else if str_contains user_lower ''nt authority'' \<or> str_contains user_lower ''nt service''
          then True
        else if str_contains user_lower ''window manager'' \<or> str_contains user_lower ''font driver''
          then True
        else if startswith user_lower ''svc_'' \<or> startswith user_lower ''svc-'' then True
        else if startswith user_lower ''service_'' \<or> startswith user_lower ''service-'' then True
        else False))"

subsection \<open>Tracker methods\<close>

text \<open>
  Modelled from the spec: the methods of \<open>EntityTracker\<close> (apps/detection/models.py is not
  among the sources). The spec's words: "increment the tracker's per-event-id counter and
  append the event id; record any \<open>track_unique\<close> fields' values into the unique-value
  sets", "\<open>event_counts\<close> (mapping event-id to occurrence count within window)",
  "\<open>unique_values\<close> (mapping tracked field name to set of distinct observed values)",
  "count matching event ids within the window".
\<close>

definition count_of :: "(int \<times> int) list \<Rightarrow> int \<Rightarrow> int" where
  "count_of cs k = (case map_of cs k of None \<Rightarrow> 0 | Some c \<Rightarrow> c)"

fun put :: "'k \<Rightarrow> 'v \<Rightarrow> ('k \<times> 'v) list \<Rightarrow> ('k \<times> 'v) list" where
  "put k v [] = [(k, v)]"
| "put k v ((k', v') # kvs) = (if k' = k then (k, v) # kvs else (k', v') # put k v kvs)"

definition increment_event :: "tracker \<Rightarrow> int \<Rightarrow> int \<Rightarrow> tracker" where
  "increment_event tr eid pk =
     tr\<lparr>event_counts := put eid (count_of (event_counts tr) eid + 1) (event_counts tr),
        event_ids := event_ids tr @ [pk]\<rparr>"

definition get_event_count :: "tracker \<Rightarrow> int \<Rightarrow> int" where
  "get_event_count tr eid = count_of (event_counts tr) eid"

definition get_total_count :: "tracker \<Rightarrow> int list option \<Rightarrow> int" where
  "get_total_count tr ids =
     (case ids of
        None \<Rightarrow> sum_list (map snd (event_counts tr))
      | Some es \<Rightarrow> sum_list (map (get_event_count tr) es))"

definition values_of :: "(string \<times> string list) list \<Rightarrow> string \<Rightarrow> string list" where
  "values_of us f = (case map_of us f of None \<Rightarrow> [] | Some vs \<Rightarrow> vs)"

definition add_unique_value :: "tracker \<Rightarrow> string \<Rightarrow> string \<Rightarrow> tracker" where
  "add_unique_value tr f v =
     (let vs = values_of (unique_values tr) f in
      if v \<in> set vs then tr
      else tr\<lparr>unique_values := put f (vs @ [v]) (unique_values tr)\<rparr>)"

definition get_unique_count :: "tracker \<Rightarrow> string \<Rightarrow> int" where
  "get_unique_count tr f = int (length (values_of (unique_values tr) f))"

subsection \<open>The tracker store\<close>

text \<open>\<open>tracker.save()\<close> writes the row with the tracker's key.\<close>

definition swap_in :: "tracker \<Rightarrow> tracker list \<Rightarrow> tracker list" where
  "swap_in tr ts = map (\<lambda>t. if tr_pk t = tr_pk tr then tr else t) ts"

definition save_tracker :: "engine_state \<Rightarrow> tracker \<Rightarrow> engine_state" where
  "save_tracker s tr = s\<lparr>trackers := swap_in tr (trackers s)\<rparr>"

definition tracker_matches :: "string \<Rightarrow> string \<Rightarrow> string \<Rightarrow> instant \<Rightarrow> tracker \<Rightarrow> bool" where
  "tracker_matches etype evalue host wstart t =
     (entity_type t = etype \<and> entity_value t = evalue \<and> tr_hostname t = host
      \<and> wstart \<le> window_end t)"

text \<open>
  \<open>get_or_create_tracker\<close>: the sweep of trackers whose window ended more than an hour of
  wall-clock time ago, the lookup (the first row in key order), the extension of the
  window, and the creation of a fresh row.
\<close>

definition get_or_create_tracker ::
  "env \<Rightarrow> engine_state \<Rightarrow> string \<Rightarrow> string \<Rightarrow> string \<Rightarrow> int \<Rightarrow> instant option
     \<Rightarrow> tracker \<times> engine_state" where
  "get_or_create_tracker e s etype evalue host wmin event_time =
     (let reference_time = (case event_time of Some t \<Rightarrow> t | None \<Rightarrow> now e);
          wstart = reference_time - minutes wmin;
          cleanup_threshold = now e - hours 1;
          s1 = s\<lparr>trackers := filter (\<lambda>t. \<not> window_end t < cleanup_threshold) (trackers s)\<rparr>
      in case find (tracker_matches etype evalue host wstart) (trackers s1) of
           Some tr \<Rightarrow>
             (if window_end tr < reference_time
              then (let tr' = tr\<lparr>window_end := reference_time + minutes wmin\<rparr>
                    in (tr', save_tracker s1 tr'))
              else (tr, s1))
         | None \<Rightarrow>
             (let tr = \<lparr>tr_pk = next_tracker_pk s1, entity_type = etype, entity_value = evalue,
                        tr_hostname = host, window_start = reference_time,
                        window_end = reference_time + minutes wmin,
                        event_counts = [], unique_values = [], event_ids = [],
                        last_event_time = None\<rparr>
              in (tr, s1\<lparr>trackers := trackers s1 @ [tr],
                         next_tracker_pk := Suc (next_tracker_pk s1)\<rparr>)))"

subsection \<open>Suppression and cooldown\<close>

definition condition_matches :: "env \<Rightarrow> event \<Rightarrow> string \<times> pattern \<Rightarrow> py_exn + bool" where
  "condition_matches e ev c =
     (let event_value = getattr_event ev (fst c) in
      if truthy event_value then
        (case snd c of
           PList ps \<Rightarrow> Inr (str_lower (py_str event_value) \<in> set (map str_lower ps))
         | PRegex p \<Rightarrow> re_match e p (py_str event_value))
      else Inr True)"

fun conditions_match :: "env \<Rightarrow> event \<Rightarrow> (string \<times> pattern) list \<Rightarrow> py_exn + bool" where
  "conditions_match e ev [] = Inr True"
| "conditions_match e ev (c # cs) =
     (case condition_matches e ev c of
        Inl x \<Rightarrow> Inl x
      | Inr ok \<Rightarrow> (if ok then conditions_match e ev cs else Inr False))"

fun any_suppression :: "env \<Rightarrow> event \<Rightarrow> suppression list \<Rightarrow> py_exn + bool" where
  "any_suppression e ev [] = Inr False"
| "any_suppression e ev (sp # sps) =
     (case conditions_match e ev (conditions sp) of
        Inl x \<Rightarrow> Inl x
      | Inr m \<Rightarrow> (if m then Inr True else any_suppression e ev sps))"

definition active_for :: "env \<Rightarrow> rule \<Rightarrow> suppression \<Rightarrow> bool" where
  "active_for e r sp =
     (sup_enabled sp \<and> detection_rule sp = rule_id r
      \<and> (case expires_at sp of None \<Rightarrow> True | Some t \<Rightarrow> now e < t))"

definition check_suppression :: "env \<Rightarrow> engine_state \<Rightarrow> rule \<Rightarrow> event \<Rightarrow> py_exn + bool" where
  "check_suppression e s r ev = any_suppression e ev (filter (active_for e r) (suppressions s))"

text \<open>
  The entity test of \<open>check_cooldown\<close>, by entity type. The store is a list of rows and
  the source-ip lookup an equality on stored text, so the handler around that lookup has
  nothing to catch here.
\<close>

definition alert_matches :: "string \<Rightarrow> string \<Rightarrow> alert \<Rightarrow> bool" where
  "alert_matches etype entity_key a =
     (if etype = ''USER_NAME'' \<or> etype = ''TARGET_USER''
        then al_user_name a = entity_key \<or> al_target_user a = entity_key
      else if etype = ''SOURCE_IP'' then al_source_ip a = Some entity_key
      else if etype = ''HOSTNAME'' then al_hostname a = entity_key
      else al_user_name a = entity_key \<or> al_hostname a = entity_key)"

definition check_cooldown :: "env \<Rightarrow> engine_state \<Rightarrow> rule \<Rightarrow> string \<Rightarrow> string \<Rightarrow> bool" where
  "check_cooldown e s r entity_key etype =
     (if cooldown_minutes r \<le> 0 then False
      else (let cooldown_start = now e - minutes (cooldown_minutes r) in
            list_ex (\<lambda>a. al_rule a = rule_id r \<and> cooldown_start \<le> triggered_at a
                          \<and> alert_matches etype entity_key a) (alerts s)))"

subsection \<open>Alert creation\<close>

definition last_n :: "nat \<Rightarrow> 'a list \<Rightarrow> 'a list" where
  "last_n n xs = drop (length xs - n) xs"

definition or_empty :: "string option \<Rightarrow> string" where
  "or_empty v = (case v of None \<Rightarrow> [] | Some s \<Rightarrow> s)"

definition bump_total :: "rule \<Rightarrow> engine_state \<Rightarrow> engine_state" where
  "bump_total r s =
     s\<lparr>rules := map (\<lambda>x. if rule_id x = rule_id r
                           then x\<lparr>total_alerts := total_alerts r + 1\<rparr> else x) (rules s)\<rparr>"

definition create_alert ::
  "env \<Rightarrow> engine_state \<Rightarrow> rule \<Rightarrow> event \<Rightarrow> tracker \<Rightarrow> string \<Rightarrow> string \<Rightarrow> int \<Rightarrow> int option
     \<Rightarrow> alert option \<times> engine_state" where
  "create_alert e s r ev tr ttl descr conf extra =
     (let entity_key = entity_value tr in
      if check_cooldown e s r entity_key (entity_type tr) then (None, s)
      else if conf < min_confidence r then (None, s)
      else
        (let evd = \<lparr>evd_event_counts = event_counts tr,
                    evd_unique_values = unique_values tr,
                    triggering_event_id = event_id ev,
                    evd_window_minutes =
                      ((window_end tr - window_start tr) div 1000000 mod 86400) div 60,
                    matched_patterns = extra\<rparr>;
             a = \<lparr>al_rule = rule_id r, title = ttl, description = descr,
                  al_severity = severity r, al_hostname = hostname ev,
                  al_user_name = or_empty (str_or (user_name ev) (target_user_name ev)),
                  al_source_ip = source_ip ev,
                  al_target_user = or_empty (target_user_name ev),
                  matched_events = last_n 50 (event_ids tr),
                  event_count = get_total_count tr None,
                  al_evidence = evd, confidence = conf,
                  first_event_time = window_start tr,
                  al_last_event_time = timestamp ev,
                  triggered_at = now e\<rparr>
         in (Some a, bump_total r (s\<lparr>alerts := alerts s @ [a]\<rparr>))))"

subsection \<open>Rule evaluation\<close>

text \<open>
  The methods \<open>_get_entity_value\<close>, \<open>_evaluate_threshold\<close>, \<open>_evaluate_sequence\<close>,
  \<open>_evaluate_pattern\<close> and \<open>_evaluate_correlation\<close> keep their names without the
  leading underscore.
\<close>

definition get_entity_value :: "event \<Rightarrow> string \<Rightarrow> pyval" where
  "get_entity_value ev tb =
     (if tb = ''user_name'' then opt_val (str_or (user_name ev) (target_user_name ev))
      else if tb = ''source_ip''
        then (if nonempty (source_ip ev) then opt_val (source_ip ev) else PNone)
      else if tb = ''hostname'' then PStr (hostname ev)
      else if tb = ''target_user'' then opt_val (target_user_name ev)
      else if tb = ''process'' then opt_val (process_name ev)
      else if tb = ''service'' then opt_val (service_name ev)
      else getattr_event ev tb)"

definition quoted :: "string \<Rightarrow> string" where
  "quoted s = [CHR 0x27] @ s @ [CHR 0x27]"

definition logic_window :: "logic \<Rightarrow> int" where
  "logic_window lg = (case window_minutes lg of None \<Rightarrow> 10 | Some w \<Rightarrow> w)"

definition threshold_confidence :: "int \<Rightarrow> int \<Rightarrow> int" where
  "threshold_confidence cnt thr = min 100 (50 + (cnt - thr) * 10)"

definition rule_threshold :: "rule \<Rightarrow> int" where
  "rule_threshold r = (case threshold (rule_logic r) of None \<Rightarrow> 5 | Some t \<Rightarrow> t)"

definition threshold_ids :: "rule \<Rightarrow> event \<Rightarrow> int list" where
  "threshold_ids r ev =
     (case lg_event_ids (rule_logic r) of None \<Rightarrow> [event_id ev] | Some l \<Rightarrow> l)"

text \<open>The \<open>unique_threshold\<close> constraint: absent, or met by the tracker.\<close>

definition unique_met :: "rule \<Rightarrow> tracker \<Rightarrow> bool" where
  "unique_met r tr =
     (case unique_threshold (rule_logic r) of
        None \<Rightarrow> True
      | Some u \<Rightarrow> \<not> get_unique_count tr (fst u) < snd u)"

definition threshold_title :: "rule \<Rightarrow> tracker \<Rightarrow> string" where
  "threshold_title r tr = rule_name r @ '': '' @ entity_value tr"

definition threshold_description :: "rule \<Rightarrow> tracker \<Rightarrow> int \<Rightarrow> int \<Rightarrow> string" where
  "threshold_description r tr cnt thr =
     ''Detected '' @ str_int cnt @ '' events (threshold: '' @ str_int thr
       @ '') for '' @ entity_type tr @ '' '' @ quoted (entity_value tr)
       @ '' within '' @ str_int (logic_window (rule_logic r)) @ '' minutes''"

definition evaluate_threshold ::
  "env \<Rightarrow> engine_state \<Rightarrow> rule \<Rightarrow> event \<Rightarrow> tracker \<Rightarrow> alert option \<times> engine_state" where
  "evaluate_threshold e s r ev tr =
     (let thr = rule_threshold r;
          cnt = get_total_count tr (Some (threshold_ids r ev))
      in if thr \<le> cnt then
           (if \<not> unique_met r tr then (None, s)
            else create_alert e s r ev tr (threshold_title r tr)
                   (threshold_description r tr cnt thr) (threshold_confidence cnt thr) None)
         else (None, s))"

text \<open>
  A step of a sequence names its events under \<open>event_ids\<close> or, failing that, under
  \<open>event_id\<close>; an absent \<open>event_id\<close> gives the list \<open>[None]\<close>. The count of a step adds
  the tracker's counters of the ids that are true (neither \<open>None\<close> nor 0).
\<close>

definition step_ids :: "seq_step \<Rightarrow> int option list" where
  "step_ids st = (case step_event_ids st of Some l \<Rightarrow> l | None \<Rightarrow> [step_event_id st])"

definition step_required :: "seq_step \<Rightarrow> int" where
  "step_required st = (case step_count st of None \<Rightarrow> 1 | Some c \<Rightarrow> c)"

fun id_count :: "tracker \<Rightarrow> int option \<Rightarrow> int" where
  "id_count tr None = 0"
| "id_count tr (Some eid) = (if eid = 0 then 0 else get_event_count tr eid)"

definition step_actual :: "tracker \<Rightarrow> seq_step \<Rightarrow> int" where
  "step_actual tr st = sum_list (map (id_count tr) (step_ids st))"

definition step_met :: "tracker \<Rightarrow> seq_step \<Rightarrow> bool" where
  "step_met tr st = (\<not> step_actual tr st < step_required st)"

definition rule_sequence :: "rule \<Rightarrow> seq_step list" where
  "rule_sequence r = (case sequence (rule_logic r) of None \<Rightarrow> [] | Some l \<Rightarrow> l)"

definition sequence_title :: "rule \<Rightarrow> tracker \<Rightarrow> string" where
  "sequence_title r tr = rule_name r @ '': '' @ entity_value tr"

definition sequence_description :: "env \<Rightarrow> tracker \<Rightarrow> string" where
  "sequence_description e tr =
     ''Detected suspicious sequence for '' @ entity_type tr @ '' ''
       @ quoted (entity_value tr) @ '': '' @ repr_counts e (event_counts tr)"

definition evaluate_sequence ::
  "env \<Rightarrow> engine_state \<Rightarrow> rule \<Rightarrow> event \<Rightarrow> tracker \<Rightarrow> alert option \<times> engine_state" where
  "evaluate_sequence e s r ev tr =
     (let sq = rule_sequence r
      in if length sq < 2 then (None, s)
         else if list_all (step_met tr) sq then
           (if Some (event_id ev) \<notin> set (step_ids (last sq)) then (None, s)
            else create_alert e s r ev tr (sequence_title r tr) (sequence_description e tr)
                   85 None)
         else (None, s))"

definition pattern_hit :: "env \<Rightarrow> event \<Rightarrow> string \<times> pattern \<Rightarrow> py_exn + bool" where
  "pattern_hit e ev c =
     (let event_value = getattr_event ev (fst c) in
      if truthy event_value then
        (case snd c of
           PList ps \<Rightarrow>
             Inr (list_ex (\<lambda>p. str_contains (str_lower (py_str event_value)) (str_lower p)) ps)
         | PRegex p \<Rightarrow> re_search e p (py_str event_value))
      else Inr False)"

fun count_matches :: "env \<Rightarrow> event \<Rightarrow> (string \<times> pattern) list \<Rightarrow> py_exn + int" where
  "count_matches e ev [] = Inr 0"
| "count_matches e ev (c # cs) =
     (case pattern_hit e ev c of
        Inl x \<Rightarrow> Inl x
      | Inr hit \<Rightarrow>
          (case count_matches e ev cs of
             Inl x \<Rightarrow> Inl x
           | Inr n \<Rightarrow> Inr ((if hit then 1 else 0) + n)))"

definition evaluate_pattern ::
  "env \<Rightarrow> engine_state \<Rightarrow> rule \<Rightarrow> event \<Rightarrow> tracker
     \<Rightarrow> (py_exn + alert option) \<times> engine_state" where
  "evaluate_pattern e s r ev tr =
     (let lg = rule_logic r;
          pats = (case patterns lg of None \<Rightarrow> [] | Some l \<Rightarrow> l)
      in case count_matches e ev pats of
           Inl x \<Rightarrow> (Inl x, s)
         | Inr matches \<Rightarrow>
             (let required = (case required_matches lg of
                                None \<Rightarrow> int (length pats) | Some m \<Rightarrow> m)
              in if required \<le> matches then
                   (case create_alert e s r ev tr
                           (rule_name r @ '': '' @ hostname ev)
                           (''Detected suspicious pattern: '' @ str_int matches @ ''/''
                              @ str_int (int (length pats)) @ '' conditions matched'')
                           (min 100 (70 + matches * 10)) (Some matches) of
                      (a, s') \<Rightarrow> (Inr a, s'))
                 else (Inr None, s)))"

definition evaluate_correlation ::
  "env \<Rightarrow> engine_state \<Rightarrow> rule \<Rightarrow> event \<Rightarrow> tracker \<Rightarrow> alert option \<times> engine_state" where
  "evaluate_correlation e s r ev tr =
     (let lg = rule_logic r;
          required = (case required_events lg of None \<Rightarrow> [] | Some l \<Rightarrow> l);
          present = map fst (event_counts tr)
      in if list_all (\<lambda>q. q \<in> set present) required then
           (let mins = (case min_counts lg of None \<Rightarrow> [] | Some l \<Rightarrow> l)
            in if list_all (\<lambda>m. \<not> get_event_count tr (fst m) < snd m) mins then
                 create_alert e s r ev tr
                   (rule_name r @ '': '' @ entity_value tr)
                   (''Detected correlated events: '' @ repr_id_set e required @ '' for ''
                      @ quoted (entity_value tr))
                   90 None
               else (None, s))
         else (None, s))"

text \<open>
  The update of the tracker in \<open>evaluate_rule\<close>: the counter and the event list, the
  time of the last event, and the values of the \<open>track_unique\<close> fields.
\<close>

definition track_value :: "event \<Rightarrow> string \<Rightarrow> tracker \<Rightarrow> tracker" where
  "track_value ev f tr =
     (let v = getattr_event ev f in
      if truthy v then add_unique_value tr f (py_str v) else tr)"

definition update_tracker :: "logic \<Rightarrow> event \<Rightarrow> tracker \<Rightarrow> tracker" where
  "update_tracker lg ev tr =
     fold (track_value ev) (case track_unique lg of None \<Rightarrow> [] | Some fs \<Rightarrow> fs)
       ((increment_event tr (event_id ev) (ev_pk ev))\<lparr>last_event_time := Some (timestamp ev)\<rparr>)"

definition rule_track_by :: "logic \<Rightarrow> string" where
  "rule_track_by lg = (case track_by lg of None \<Rightarrow> ''user_name'' | Some t \<Rightarrow> t)"

definition excludes_system :: "logic \<Rightarrow> bool" where
  "excludes_system lg = (case exclude_system_accounts lg of None \<Rightarrow> True | Some b \<Rightarrow> b)"

definition lift_result ::
  "alert option \<times> engine_state \<Rightarrow> (py_exn + alert option) \<times> engine_state" where
  "lift_result p = (Inr (fst p), snd p)"

text \<open>
  The tracker part of \<open>evaluate_rule\<close>: the tracker of the entity is fetched or created
  for the window anchored at the event's own timestamp, updated and saved.
\<close>

definition track_event ::
  "env \<Rightarrow> engine_state \<Rightarrow> logic \<Rightarrow> event \<Rightarrow> tracker \<times> engine_state" where
  "track_event e s lg ev =
     (let tb = rule_track_by lg;
          got = get_or_create_tracker e s (str_upper tb) (py_str (get_entity_value ev tb))
                  (hostname ev) (logic_window lg) (Some (timestamp ev));
          tr = update_tracker lg ev (fst got)
      in (tr, save_tracker (snd got) tr))"

text \<open>The checks of \<open>evaluate_rule\<close> that come before the tracker is touched.\<close>

definition skips ::  "logic \<Rightarrow> event \<Rightarrow> bool \<Rightarrow> bool \<Rightarrow> bool" where
  "skips lg ev is_sys is_target_sys =
     (let ids = (case lg_event_ids lg of None \<Rightarrow> [] | Some l \<Rightarrow> l);
          tb = rule_track_by lg
      in if ids \<noteq> [] \<and> event_id ev \<notin> set ids then True
         else if excludes_system lg \<and>
                 ((is_sys \<and> is_target_sys) \<or> (tb = ''target_user'' \<and> is_target_sys)
                  \<or> (tb = ''user_name'' \<and> is_sys))
           then True
         else \<not> truthy (get_entity_value ev tb))"

definition evaluate_rule ::
  "env \<Rightarrow> engine_state \<Rightarrow> rule \<Rightarrow> event \<Rightarrow> bool \<Rightarrow> bool
     \<Rightarrow> (py_exn + alert option) \<times> engine_state" where
  "evaluate_rule e s r ev is_sys is_target_sys =
     (if skips (rule_logic r) ev is_sys is_target_sys then (Inr None, s)
      else
        (let tracked = track_event e s (rule_logic r) ev;
             tr = fst tracked;
             s2 = snd tracked
         in if rule_type r = ''THRESHOLD'' then lift_result (evaluate_threshold e s2 r ev tr)
            else if rule_type r = ''SEQUENCE'' then lift_result (evaluate_sequence e s2 r ev tr)
            else if rule_type r = ''PATTERN'' then evaluate_pattern e s2 r ev tr
            else if rule_type r = ''CORRELATION''
              then lift_result (evaluate_correlation e s2 r ev tr)
            else (Inr None, s2)))"

text \<open>
  \<open>process_event\<close>: the loop over the cached rules. An exception of one rule is logged
  and the loop goes on; what the rule had written before raising stays written.
\<close>

fun alert_of :: "py_exn + alert option \<Rightarrow> alert list" where
  "alert_of (Inr (Some a)) = [a]"
| "alert_of (Inr None) = []"
| "alert_of (Inl x) = []"

fun process_rules ::
  "env \<Rightarrow> event \<Rightarrow> bool \<Rightarrow> bool \<Rightarrow> rule list \<Rightarrow> engine_state \<Rightarrow> alert list \<times> engine_state" where
  "process_rules e ev is_sys is_target_sys [] s = ([], s)"
| "process_rules e ev is_sys is_target_sys (r # rs) s =
     (let res = evaluate_rule e s r ev is_sys is_target_sys;
          rest = process_rules e ev is_sys is_target_sys rs (snd res)
      in (alert_of (fst res) @ fst rest, snd rest))"

definition process_event :: "env \<Rightarrow> engine_state \<Rightarrow> event \<Rightarrow> alert list \<times> engine_state" where
  "process_event e s ev =
     (if event_id ev \<in> set NOISE_EVENT_IDS then ([], s)
      else process_rules e ev (is_system_account (user_name ev))
             (is_system_account (target_user_name ev)) (rules s) s)"

section \<open>PQL engine\<close>

subsection \<open>Time values\<close>

text \<open>
  Python's \<open>int(text)\<close> in base ten: white space around the number, an optional sign,
  digits, and single underscores between digits. CPython refuses a text of more than 4300
  digits (the default of \<open>sys.set_int_max_str_digits\<close>) with \<open>ValueError\<close>, as it
  refuses a text that is no number.
\<close>

definition is_digit :: "char \<Rightarrow> bool" where
  "is_digit c = (c \<in> set digit_chars)"

definition digit_val :: "char \<Rightarrow> int" where
  "digit_val c = (case map_of (zip digit_chars [0, 1, 2, 3, 4, 5, 6, 7, 8, 9]) c of
                    Some d \<Rightarrow> d | None \<Rightarrow> 0)"

fun digits_val :: "int \<Rightarrow> string \<Rightarrow> int option" where
  "digits_val acc [] = Some acc"
| "digits_val acc [c] = (if is_digit c then Some (acc * 10 + digit_val c) else None)"
| "digits_val acc (c # d # ds) =
     (if is_digit c then digits_val (acc * 10 + digit_val c) (d # ds)
      else if c = CHR ''_'' \<and> is_digit d then digits_val (acc * 10 + digit_val d) ds
      else None)"

definition unsigned_val :: "string \<Rightarrow> int option" where
  "unsigned_val s =
     (case s of [] \<Rightarrow> None
      | c # cs \<Rightarrow>
          if is_digit c \<and> length (filter is_digit s) \<le> 4300
          then digits_val (digit_val c) cs else None)"

definition py_int :: "string \<Rightarrow> int option" where
  "py_int s =
     (case str_strip s of
        [] \<Rightarrow> None
      | c # cs \<Rightarrow>
          if c = CHR ''-'' then map_option uminus (unsigned_val cs)
          else if c = CHR ''+'' then unsigned_val cs
          else unsigned_val (c # cs))"

text \<open>
  \<open>timedelta\<close> raises \<open>OverflowError\<close> beyond 999999999 days, and a \<open>datetime\<close> lies
  between 0001-01-01 00:00:00 and 9999-12-31 23:59:59.999999; \<open>timezone.now()\<close> is in UTC,
  so the bounds are instants.
\<close>

definition datetime_min :: instant where
  "datetime_min = - 62135596800000000"

definition datetime_max :: instant where
  "datetime_max = 253402300799999999"

definition timedelta :: "int \<Rightarrow> py_exn + int" where
  "timedelta us =
     (if us div 86400000000 < - 999999999 \<or> 999999999 < us div 86400000000
      then Inl OverflowError else Inr us)"

definition datetime_sub :: "instant \<Rightarrow> int \<Rightarrow> py_exn + instant" where
  "datetime_sub t d =
     (if t - d < datetime_min \<or> datetime_max < t - d then Inl OverflowError else Inr (t - d))"

definition shift_back :: "instant \<Rightarrow> int \<Rightarrow> py_exn + instant" where
  "shift_back t us = (case timedelta us of Inl x \<Rightarrow> Inl x | Inr d \<Rightarrow> datetime_sub t d)"

text \<open>\<open>parse_time_value\<close>, with the reading of the clock as its first argument.\<close>

definition parse_time_value :: "instant \<Rightarrow> string \<Rightarrow> py_exn + instant" where
  "parse_time_value t v =
     (if length v < 2 then Inr t
      else (let unit = lower_char (last v) in
        case py_int (butlast v) of
          None \<Rightarrow> Inr t
        | Some amount \<Rightarrow>
            if unit = CHR ''s'' then shift_back t (seconds amount)
            else if unit = CHR ''m'' then shift_back t (minutes amount)
            else if unit = CHR ''h'' then shift_back t (hours amount)
            else if unit = CHR ''d'' then shift_back t (days amount)
            else if unit = CHR ''w'' then shift_back t (weeks amount)
            else Inr t))"


subsection \<open>Syntax trees and query objects\<close>

datatype pql_value = VStr string | VInt int | VFloat string | VTime instant | VBool bool
  | VNull | VList "pql_value list"

text \<open>An entry of the condition list: a connective, or a field, an operator and a value.\<close>

datatype cond_item = Logical string | Cond string string pql_value

text \<open>
  The tree the parser returns is a dictionary; a key it may lack is an optional field,
  read with the default of \<open>ast.get\<close>. The key \<open>having\<close> of an AGGREGATE tree, always
  \<open>None\<close> and never read, is left out.
\<close>

record pql_ast =
  command :: string
  ast_source :: "string option"
  ast_target :: "string option"
  ast_conditions :: "cond_item list option"
  ast_order_by :: "string option"
  ast_order_dir :: "string option"
  ast_limit :: "int option"
  ast_offset :: "int option"
  ast_group_by :: "string option"
  ast_aggregations :: "string list option"
  ast_within :: "pql_value option"

text \<open>A \<open>Q\<close> object of the store: a keyword lookup, a negation, a conjunction, a disjunction.\<close>

datatype qobj = Q string pql_value | QNot qobj | QAnd qobj qobj | QOr qobj qobj

text \<open>
  What \<open>QuerySet.filter\<close> is handed: a \<open>Q\<close> object, or the pair that
  \<open>_build_q_objects\<close> returns when the caller does not unpack it.
\<close>

datatype filter_arg = FQ qobj | FPair "qobj option" bool

text \<open>
  The event store behind the executor. The rows, the field names of the stored model, and
  the store's operations, each of which may raise: the filter by a \<open>Q\<close> object, the
  ordering, and the grouping \<open>values(g).annotate(...).order_by('-count')\<close>. A row leaves
  the store as a dictionary (\<open>values()\<close>) or as an object. \<open>parse_datetime\<close> is the
  store library's reader of ISO dates.
\<close>

record ('row, 'out) store =
  all_rows :: "'row list"
  model_fields :: "string list"
  parse_datetime :: "string \<Rightarrow> instant option"
  apply_q :: "qobj \<Rightarrow> 'row list \<Rightarrow> py_exn + 'row list"
  order_rows :: "string \<Rightarrow> 'row list \<Rightarrow> py_exn + 'row list"
  group_rows :: "string \<Rightarrow> (string \<times> string) list \<Rightarrow> 'row list \<Rightarrow> py_exn + 'out list"
  row_values :: "'row \<Rightarrow> 'out"
  row_object :: "'row \<Rightarrow> 'out"

definition FIELD_MAP :: "(string \<times> string) list" where
  "FIELD_MAP =
     [(''event_id'', ''event_id''), (''timestamp'', ''timestamp''), (''hostname'', ''hostname''),
      (''channel'', ''channel''), (''severity'', ''severity''), (''user_name'', ''user_name''),
      (''user'', ''user_name''), (''source_ip'', ''source_ip''), (''dest_ip'', ''destination_ip''),
      (''destination_ip'', ''destination_ip''), (''process_name'', ''process_name''),
      (''process'', ''process_name''), (''process_path'', ''process_path''),
      (''command_line'', ''command_line''), (''cmd'', ''command_line''),
      (''service_name'', ''service_name''), (''service'', ''service_name''),
      (''message'', ''message''), (''msg'', ''message''), (''agent_id'', ''agent_id''),
      (''logon_type'', ''logon_type''), (''raw_xml'', ''raw_xml''), (''xml'', ''raw_xml''),
      (''event_data'', ''event_data''), (''data'', ''event_data''), (''full_text'', ''full_text''),
      (''text'', ''full_text'')]"

definition map_field :: "string \<Rightarrow> string" where
  "map_field f = (case map_of FIELD_MAP f of None \<Rightarrow> f | Some g \<Rightarrow> g)"

definition is_valid_field :: "('row, 'out) store \<Rightarrow> string \<Rightarrow> bool" where
  "is_valid_field st f = (f \<in> set (model_fields st) \<union> set (map snd FIELD_MAP))"

subsection \<open>Building the filter\<close>

definition time_suffix :: "string \<Rightarrow> bool" where
  "time_suffix v = (v \<noteq> [] \<and> lower_char (last v) \<in> set ''hmsdw'')"

text \<open>The value of a condition on \<open>timestamp\<close>, made an instant where it reads as one.\<close>

definition timestamp_value ::
  "('row, 'out) store \<Rightarrow> instant \<Rightarrow> pql_value \<Rightarrow> py_exn + pql_value" where
  "timestamp_value st t v =
     (case v of
        VStr s \<Rightarrow>
          (if time_suffix s
           then (case parse_time_value t s of Inl x \<Rightarrow> Inl x | Inr i \<Rightarrow> Inr (VTime i))
           else (case parse_datetime st s of None \<Rightarrow> Inr (VStr s) | Some i \<Rightarrow> Inr (VTime i)))
      | _ \<Rightarrow> Inr v)"

definition like_pattern :: "string \<Rightarrow> string" where
  "like_pattern s =
     concat (map (\<lambda>c. if c = CHR ''%'' then ''.*'' else if c = CHR ''_'' then ''.'' else [c]) s)"

text \<open>
  The \<open>Q\<close> object of one condition; \<open>None\<close> for an operator the executor does not know.
  \<open>LIKE\<close> calls \<open>value.replace\<close>, which only a string has.
\<close>

definition make_q :: "string \<Rightarrow> string \<Rightarrow> pql_value \<Rightarrow> py_exn + qobj option" where
  "make_q field operator v =
     (if operator = ''='' then Inr (Some (Q field v))
      else if operator = ''!='' then Inr (Some (QNot (Q field v)))
      else if operator = ''>'' then Inr (Some (Q (field @ ''__gt'') v))
      else if operator = ''>='' then Inr (Some (Q (field @ ''__gte'') v))
      else if operator = ''<'' then Inr (Some (Q (field @ ''__lt'') v))
      else if operator = ''<='' then Inr (Some (Q (field @ ''__lte'') v))
      else if operator = ''CONTAINS'' then
        (if field = ''message'' \<or> field = ''msg''
         then Inr (Some (QOr (QOr (QOr (Q ''message__icontains'' v) (Q ''raw_xml__icontains'' v))
                                  (Q ''event_data__icontains'' v))
                             (Q ''full_text__icontains'' v)))
         else Inr (Some (Q (field @ ''__icontains'') v)))
      else if operator = ''LIKE'' then
        (case v of
           VStr s \<Rightarrow> Inr (Some (Q (field @ ''__regex'') (VStr (like_pattern s))))
         | VTime i \<Rightarrow> Inl TypeError
         | _ \<Rightarrow> Inl AttributeError)
      else if operator = ''IN'' then Inr (Some (Q (field @ ''__in'') v))
      else Inr None)"

definition combine :: "qobj option \<Rightarrow> string \<Rightarrow> qobj \<Rightarrow> qobj option" where
  "combine q_result current_logical q =
     (case q_result of
        None \<Rightarrow> Some q
      | Some r \<Rightarrow>
          if current_logical = ''AND'' then Some (QAnd r q)
          else if current_logical = ''OR'' then Some (QOr r q)
          else Some r)"

fun build_loop ::
  "('row, 'out) store \<Rightarrow> instant \<Rightarrow> cond_item list \<Rightarrow> qobj option \<Rightarrow> string \<Rightarrow> bool
     \<Rightarrow> py_exn + (qobj option \<times> bool)" where
  "build_loop st t [] q_result current_logical has_valid = Inr (q_result, has_valid)"
| "build_loop st t (Logical lop # items) q_result current_logical has_valid =
     build_loop st t items q_result lop has_valid"
| "build_loop st t (Cond f operator v # items) q_result current_logical has_valid =
     (let field = map_field f in
      if \<not> is_valid_field st field
      then build_loop st t items q_result current_logical has_valid
      else
        (case (if field = ''timestamp'' then timestamp_value st t v else Inr v) of
           Inl x \<Rightarrow> Inl x
         | Inr v' \<Rightarrow>
             (case make_q field operator v' of
                Inl x \<Rightarrow> Inl x
              | Inr None \<Rightarrow> build_loop st t items q_result current_logical True
              | Inr (Some q) \<Rightarrow>
                  build_loop st t items (combine q_result current_logical q)
                    current_logical True)))"

definition build_q_objects ::
  "('row, 'out) store \<Rightarrow> instant \<Rightarrow> cond_item list \<Rightarrow> py_exn + (qobj option \<times> bool)" where
  "build_q_objects st t conds =
     (if conds = [] then Inr (None, True) else build_loop st t conds None ''AND'' False)"

text \<open>
  For the statements about unknown fields: an entry of the condition list is unknown when
  it is a condition whose field, after the alias mapping, fails \<open>_is_valid_field\<close>;
  \<open>all_unknown\<close> holds of a list whose conditions are all unknown.
\<close>

definition unknown_field :: "('row, 'out) store \<Rightarrow> cond_item \<Rightarrow> bool" where
  "unknown_field st c =
     (case c of Logical l \<Rightarrow> False | Cond f opr v \<Rightarrow> \<not> is_valid_field st (map_field f))"

definition all_unknown :: "('row, 'out) store \<Rightarrow> cond_item list \<Rightarrow> bool" where
  "all_unknown st cs =
     list_all (\<lambda>c. case c of Logical l \<Rightarrow> True | Cond f opr v \<Rightarrow> unknown_field st c) cs"

subsection \<open>The executor\<close>

text \<open>
  \<open>QuerySet.filter\<close> with one positional argument. A \<open>Q\<close> object is applied by the
  store. Anything else is unpacked as a pair of a lookup name and a value: an empty name
  raises \<open>FieldError\<close>, and a \<open>Q\<close> object in the place of the name fails with
  \<open>AttributeError\<close> when the store splits the name.
\<close>

definition qs_filter ::
  "('row, 'out) store \<Rightarrow> filter_arg \<Rightarrow> 'row list \<Rightarrow> py_exn + 'row list" where
  "qs_filter st a rs =
     (case a of
        FQ q \<Rightarrow> apply_q st q rs
      | FPair None b \<Rightarrow> Inl FieldError
      | FPair (Some q) b \<Rightarrow> Inl AttributeError)"

text \<open>The executor's handler around \<open>filter\<close>: a \<open>FieldError\<close> gives the empty queryset.\<close>

definition guarded_filter ::
  "('row, 'out) store \<Rightarrow> filter_arg \<Rightarrow> 'row list \<Rightarrow> py_exn + 'row list" where
  "guarded_filter st a rs =
     (case qs_filter st a rs of
        Inl x \<Rightarrow> (if x = FieldError then Inr [] else Inl x)
      | Inr rs' \<Rightarrow> Inr rs')"

text \<open>A slice of a queryset: the store refuses a negative bound.\<close>

definition qs_slice :: "int \<Rightarrow> int \<Rightarrow> 'a list \<Rightarrow> py_exn + 'a list" where
  "qs_slice start stop xs =
     (if start < 0 \<or> stop < 0 then Inl ValueError
      else Inr (take (nat stop - nat start) (drop (nat start) xs)))"

definition conditions_of :: "pql_ast \<Rightarrow> cond_item list" where
  "conditions_of ast = (case ast_conditions ast of None \<Rightarrow> [] | Some cs \<Rightarrow> cs)"

text \<open>The filtering shared by \<open>_execute_search\<close> and \<open>_execute_hunt\<close>.\<close>

definition filtered_rows ::
  "('row, 'out) store \<Rightarrow> instant \<Rightarrow> pql_ast \<Rightarrow> py_exn + 'row list" where
  "filtered_rows st t ast =
     (case build_q_objects st t (conditions_of ast) of
        Inl x \<Rightarrow> Inl x
      | Inr (q_objects, has_valid) \<Rightarrow>
          if \<not> has_valid then Inr []
          else (case q_objects of
                  None \<Rightarrow> Inr (all_rows st)
                | Some q \<Rightarrow> guarded_filter st (FQ q) (all_rows st)))"

definition search_order :: "pql_ast \<Rightarrow> string" where
  "search_order ast =
     (let o1 = (case ast_order_by ast of None \<Rightarrow> ''timestamp''
                | Some f \<Rightarrow> if f = [] then ''timestamp'' else f);
          o2 = (if map_field o1 = [] then ''timestamp'' else map_field o1)
      in if ast_order_dir ast = Some ''DESC'' then CHR ''-'' # o2 else o2)"

text \<open>
  \<open>_execute_search\<close> after the filter: the ordering, the slice from \<open>offset\<close> to
  \<open>offset + limit\<close>, and the rows as dictionaries.
\<close>

definition finish_search ::
  "('row, 'out) store \<Rightarrow> pql_ast \<Rightarrow> 'row list \<Rightarrow> py_exn + 'out list" where
  "finish_search st ast rs =
     (case order_rows st (search_order ast) rs of
        Inl x \<Rightarrow> Inl x
      | Inr ordered \<Rightarrow>
          (let limit = (case ast_limit ast of None \<Rightarrow> 100 | Some l \<Rightarrow> l);
               offset = (case ast_offset ast of None \<Rightarrow> 0 | Some k \<Rightarrow> k)
           in case qs_slice offset (offset + limit) ordered of
                Inl x \<Rightarrow> Inl x
              | Inr page \<Rightarrow> Inr (map (row_values st) page)))"

definition execute_search ::
  "('row, 'out) store \<Rightarrow> instant \<Rightarrow> pql_ast \<Rightarrow> py_exn + 'out list" where
  "execute_search st t ast =
     (case filtered_rows st t ast of
        Inl x \<Rightarrow> Inl x
      | Inr rs \<Rightarrow> finish_search st ast rs)"

definition hunt_annotations :: "(string \<times> string) list" where
  "hunt_annotations =
     [(''count'', ''Count(id)''), (''first_seen'', ''Min(timestamp)''),
      (''last_seen'', ''Max(timestamp)'')]"

text \<open>The grouping of a queryset when the tree names a \<open>group_by\<close> field.\<close>

definition grouped ::
  "('row, 'out) store \<Rightarrow> string option \<Rightarrow> (string \<times> string) list \<Rightarrow> 'row list
     \<Rightarrow> py_exn + 'out list" where
  "grouped st g anns rs =
     (case g of
        None \<Rightarrow> Inr (map (row_object st) rs)
      | Some f \<Rightarrow> if f = [] then Inr (map (row_object st) rs)
                  else group_rows st (map_field f) anns rs)"

text \<open>\<open>_execute_hunt\<close> after the filter: the grouping and the slice up to \<open>limit\<close>.\<close>

definition finish_hunt ::
  "('row, 'out) store \<Rightarrow> pql_ast \<Rightarrow> 'row list \<Rightarrow> py_exn + 'out list" where
  "finish_hunt st ast rs =
     (case grouped st (ast_group_by ast) hunt_annotations rs of
        Inl x \<Rightarrow> Inl x
      | Inr out \<Rightarrow> qs_slice 0 (case ast_limit ast of None \<Rightarrow> 500 | Some l \<Rightarrow> l) out)"

definition execute_hunt ::
  "('row, 'out) store \<Rightarrow> instant \<Rightarrow> pql_ast \<Rightarrow> py_exn + 'out list" where
  "execute_hunt st t ast =
     (case filtered_rows st t ast of
        Inl x \<Rightarrow> Inl x
      | Inr rs \<Rightarrow> finish_hunt st ast rs)"

text \<open>
  The \<open>within\<close> bound of \<open>_execute_aggregate\<close>: a non-empty string is parsed as a time
  value, an instant is taken as it is, and any other value adds no filter.
\<close>

definition within_bound :: "instant \<Rightarrow> pql_value option \<Rightarrow> py_exn + instant option" where
  "within_bound t w =
     (case w of
        Some (VStr s) \<Rightarrow>
          (if s = [] then Inr None
           else (case parse_time_value t s of Inl x \<Rightarrow> Inl x | Inr i \<Rightarrow> Inr (Some i)))
      | Some (VTime i) \<Rightarrow> Inr (Some i)
      | _ \<Rightarrow> Inr None)"

text \<open>The rows that pass the time filter of \<open>_execute_aggregate\<close>.\<close>

definition within_rows ::
  "('row, 'out) store \<Rightarrow> instant \<Rightarrow> pql_ast \<Rightarrow> py_exn + 'row list" where
  "within_rows st t ast =
     (case within_bound t (ast_within ast) of
        Inl x \<Rightarrow> Inl x
      | Inr None \<Rightarrow> Inr (all_rows st)
      | Inr (Some i) \<Rightarrow> qs_filter st (FQ (Q ''timestamp__gte'' (VTime i))) (all_rows st))"

fun aggregate_annotation :: "string \<Rightarrow> (string \<times> string) list" where
  "aggregate_annotation func =
     (if func = ''COUNT'' then [(''count'', ''Count(id)'')]
      else if func = ''SUM'' then [(''sum'', ''Sum(id)'')]
      else if func = ''AVG'' then [(''avg'', ''Avg(id)'')]
      else if func = ''MIN'' then [(''min'', ''Min(timestamp)'')]
      else if func = ''MAX'' then [(''max'', ''Max(timestamp)'')]
      else [])"

definition aggregate_annotations :: "pql_ast \<Rightarrow> (string \<times> string) list" where
  "aggregate_annotations ast =
     concat (map aggregate_annotation
       (case ast_aggregations ast of None \<Rightarrow> [''COUNT''] | Some fs \<Rightarrow> fs))"

text \<open>\<open>_execute_aggregate\<close> after the filters: the grouping and the first 100 rows.\<close>

definition finish_aggregate ::
  "('row, 'out) store \<Rightarrow> pql_ast \<Rightarrow> 'row list \<Rightarrow> py_exn + 'out list" where
  "finish_aggregate st ast rs =
     (case grouped st (ast_group_by ast) (aggregate_annotations ast) rs of
        Inl x \<Rightarrow> Inl x
      | Inr out \<Rightarrow> qs_slice 0 100 out)"

text \<open>
  \<open>_execute_aggregate\<close> keeps the pair that \<open>_build_q_objects\<close> returns in one variable:
  the pair is never empty, so the filter is always called, with the pair.
\<close>

definition execute_aggregate ::
  "('row, 'out) store \<Rightarrow> instant \<Rightarrow> pql_ast \<Rightarrow> py_exn + 'out list" where
  "execute_aggregate st t ast =
     (case within_rows st t ast of
        Inl x \<Rightarrow> Inl x
      | Inr rs \<Rightarrow>
          (case build_q_objects st t (conditions_of ast) of
             Inl x \<Rightarrow> Inl x
           | Inr q_objects \<Rightarrow>
               (case guarded_filter st (FPair (fst q_objects) (snd q_objects)) rs of
                  Inl x \<Rightarrow> Inl x
                | Inr rs' \<Rightarrow> finish_aggregate st ast rs')))"

definition execute :: "('row, 'out) store \<Rightarrow> instant \<Rightarrow> pql_ast \<Rightarrow> py_exn + 'out list" where
  "execute st t ast =
     (if command ast = ''SEARCH'' then execute_search st t ast
      else if command ast = ''HUNT'' then execute_hunt st t ast
      else if command ast = ''AGGREGATE'' then execute_aggregate st t ast
      else Inl PQLExecutionError)"

subsection \<open>The lexer\<close>

text \<open>
  \<open>PQLToken\<close> and \<open>PQLLexer\<close>. A token is a pair of its type and its text; the text of
  the closing \<open>EOF\<close> token is \<open>None\<close>. The character classes are those of ASCII text.
\<close>

datatype tok_type = KEYWORD | IDENTIFIER | STRING | NUMBER | OPERATOR | COMPARISON | LOGICAL
  | PIPE | COMMA | LPAREN | RPAREN | EOF

type_synonym token = "tok_type \<times> string option"

definition KEYWORDS :: "string list" where
  "KEYWORDS =
     [''SEARCH'', ''HUNT'', ''AGGREGATE'', ''TIMELINE'', ''CORRELATE'',
      ''WHERE'', ''AND'', ''OR'', ''NOT'', ''IN'', ''CONTAINS'', ''LIKE'',
      ''ORDER'', ''BY'', ''ASC'', ''DESC'', ''LIMIT'', ''OFFSET'',
      ''GROUP'', ''HAVING'', ''COUNT'', ''SUM'', ''AVG'', ''MIN'', ''MAX'',
      ''DISTINCT'', ''TOP'', ''WITHIN'', ''FROM'', ''TO'', ''AS'',
      ''NOW'', ''TRUE'', ''FALSE'', ''NULL'']"

definition is_alpha :: "char \<Rightarrow> bool" where
  "is_alpha c = (c \<in> set (ascii_upper @ ascii_lower))"

definition is_alnum :: "char \<Rightarrow> bool" where
  "is_alnum c = (is_alpha c \<or> is_digit c)"

definition is_quote :: "char \<Rightarrow> bool" where
  "is_quote c = (c = CHR 0x22 \<or> c = CHR 0x27)"

definition is_comparison_char :: "char \<Rightarrow> bool" where
  "is_comparison_char c = (c \<in> set ''=!<>'')"

text \<open>
  \<open>_read_string\<close>, from the character after the opening quote: the text up to the
  closing quote, a backslash taking the next character with it, and the rest of the query
  after the closing quote.
\<close>

fun read_string :: "char \<Rightarrow> string \<Rightarrow> string \<times> string" where
  "read_string quote_char [] = ([], [])"
| "read_string quote_char [c] = (if c = quote_char then ([], []) else ([c], []))"
| "read_string quote_char (c # d # cs) =
     (if c = quote_char then ([], d # cs)
      else if c = CHR 0x5C
      then (let r = read_string quote_char cs in (c # d # fst r, snd r))
      else (let r = read_string quote_char (d # cs) in (c # fst r, snd r)))"

text \<open>
  \<open>_read_number\<close>: an optional minus sign, digits and dots, and one time-unit letter if
  it follows.
\<close>

definition read_number :: "string \<Rightarrow> string \<times> string" where
  "read_number cs =
     (let sign = (case cs of [] \<Rightarrow> [] | c # r \<Rightarrow> if c = CHR ''-'' then [c] else []);
          r1 = drop (length sign) cs;
          body = takeWhile (\<lambda>c. is_digit c \<or> c = CHR ''.'') r1;
          r2 = dropWhile (\<lambda>c. is_digit c \<or> c = CHR ''.'') r1;
          unit = (case r2 of [] \<Rightarrow> [] | u # r \<Rightarrow> if u \<in> set ''hmsdw'' then [u] else [])
      in (sign @ body @ unit, drop (length unit) r2))"

definition read_identifier :: "string \<Rightarrow> token \<times> string" where
  "read_identifier cs =
     (let v = takeWhile (\<lambda>c. is_alnum c \<or> c = CHR ''_'') cs;
          r = dropWhile (\<lambda>c. is_alnum c \<or> c = CHR ''_'') cs;
          upper_value = str_upper v
      in if upper_value \<in> set KEYWORDS
         then (if upper_value \<in> set [''AND'', ''OR'', ''NOT'']
               then ((LOGICAL, Some upper_value), r)
               else ((KEYWORD, Some upper_value), r))
         else ((IDENTIFIER, Some v), r))"

definition read_comparison :: "string \<Rightarrow> token \<times> string" where
  "read_comparison cs =
     ((COMPARISON, Some (takeWhile is_comparison_char cs)), dropWhile is_comparison_char cs)"

text \<open>
  One round of the loop of \<open>tokenize\<close> on the query from a character that is no white
  space: the token it appends, if any, and the rest of the query.
\<close>

definition next_token :: "char \<Rightarrow> string \<Rightarrow> token option \<times> string" where
  "next_token c cs =
     (if is_quote c
      then (let r = read_string c cs in (Some (STRING, Some (fst r)), snd r))
      else if is_digit c \<or> (c = CHR ''-'' \<and> cs \<noteq> [] \<and> is_digit (hd cs))
      then (let r = read_number (c # cs) in (Some (NUMBER, Some (fst r)), snd r))
      else if is_alpha c \<or> c = CHR ''_''
      then (let r = read_identifier (c # cs) in (Some (fst r), snd r))
      else if is_comparison_char c
      then (let r = read_comparison (c # cs) in (Some (fst r), snd r))
      else if c = CHR ''|'' then (Some (PIPE, Some ''|''), cs)
      else if c = CHR '','' then (Some (COMMA, Some '',''), cs)
      else if c = CHR ''('' then (Some (LPAREN, Some ''(''), cs)
      else if c = CHR '')'' then (Some (RPAREN, Some '')''), cs)
      else (None, cs))"

lemma read_string_shorter: "length (snd (read_string q cs)) \<le> length cs"
  by (induction q cs rule: read_string.induct) (auto simp: Let_def)

lemma read_number_shorter:
  assumes "is_digit c \<or> c = CHR ''-''"
  shows "length (snd (read_number (c # cs))) \<le> length cs"
proof (cases "c = CHR ''-''")
  case True
  have "length (dropWhile (\<lambda>c. is_digit c \<or> c = CHR ''.'') cs) \<le> length cs"
    by (rule length_dropWhile_le)
  then show ?thesis
    using True by (simp add: read_number_def Let_def)
next
  case False
  have "length (dropWhile (\<lambda>c. is_digit c \<or> c = CHR ''.'') cs) \<le> length cs"
    by (rule length_dropWhile_le)
  then show ?thesis
    using False assms by (simp add: read_number_def Let_def)
qed

lemma read_identifier_shorter:
  assumes "is_alpha c \<or> c = CHR ''_''"
  shows "length (snd (read_identifier (c # cs))) \<le> length cs"
proof -
  have "length (dropWhile (\<lambda>c. is_alnum c \<or> c = CHR ''_'') cs) \<le> length cs"
    by (rule length_dropWhile_le)
  then show ?thesis
    using assms by (auto simp: read_identifier_def Let_def is_alnum_def)
qed

lemma read_comparison_shorter:
  assumes "is_comparison_char c"
  shows "length (snd (read_comparison (c # cs))) \<le> length cs"
  using assms length_dropWhile_le [of is_comparison_char cs] by (simp add: read_comparison_def)

lemma next_token_shorter: "length (snd (next_token c cs)) \<le> length cs"
  by (simp add: next_token_def Let_def read_string_shorter read_number_shorter
      read_identifier_shorter read_comparison_shorter)

function tokenize :: "string \<Rightarrow> token list" where
  "tokenize query =
     (case dropWhile is_space query of
        [] \<Rightarrow> [(EOF, None)]
      | c # cs \<Rightarrow>
          (case fst (next_token c cs) of
             None \<Rightarrow> tokenize (snd (next_token c cs))
           | Some tk \<Rightarrow> tk # tokenize (snd (next_token c cs))))"
  by pat_completeness auto
termination
proof (relation "measure length")
  show "wf (measure length)" by simp
next
  fix query :: string and c cs
  assume a: "dropWhile is_space query = c # cs"
  have "length (c # cs) \<le> length query"
    using a length_dropWhile_le [of is_space query] by simp
  then show "(snd (next_token c cs), query) \<in> measure length"
    using next_token_shorter [of c cs] by simp
next
  fix query :: string and c cs
  assume a: "dropWhile is_space query = c # cs"
  have "length (c # cs) \<le> length query"
    using a length_dropWhile_le [of is_space query] by simp
  then show "(snd (next_token c cs), query) \<in> measure length"
    using next_token_shorter [of c cs] by simp
qed

declare tokenize.simps [simp del]

subsection \<open>The parser\<close>

text \<open>
  \<open>PQLParser\<close>, with the tokens from the current position on as its state: past the end
  the current token is \<open>EOF\<close>, and \<open>consume\<close> moves one token on.
\<close>

definition current_token :: "token list \<Rightarrow> token" where
  "current_token ts = (case ts of [] \<Rightarrow> (EOF, None) | tk # r \<Rightarrow> tk)"

definition consume ::
  "tok_type option \<Rightarrow> string option \<Rightarrow> token list \<Rightarrow> py_exn + token \<times> token list" where
  "consume expected_type expected_value ts =
     (let tk = current_token ts in
      if (case expected_type of None \<Rightarrow> False | Some ty \<Rightarrow> fst tk \<noteq> ty)
      then Inl PQLSyntaxError
      else if (case expected_value of None \<Rightarrow> False | Some v \<Rightarrow> v \<noteq> [] \<and> snd tk \<noteq> Some v)
      then Inl PQLSyntaxError
      else Inr (tk, tl ts))"

text \<open>
  \<open>float(text)\<close> on the text of a \<open>NUMBER\<close> token, an optional minus sign before digits
  and dots: Python accepts it when it has one dot and a digit. The float is kept as its
  text.
\<close>

definition py_float :: "string \<Rightarrow> string option" where
  "py_float s =
     (let body = (case s of [] \<Rightarrow> [] | c # r \<Rightarrow> if c = CHR ''-'' then r else s)
      in if list_all (\<lambda>c. is_digit c \<or> c = CHR ''.'') body
            \<and> length (filter (\<lambda>c. c = CHR ''.'') body) = 1 \<and> list_ex is_digit body
         then Some s else None)"

definition text_value :: "string option \<Rightarrow> pql_value" where
  "text_value v = (case v of None \<Rightarrow> VNull | Some s \<Rightarrow> VStr s)"

text \<open>
  \<open>_parse_value\<close>: the value of the current token. Every branch that returns consumes
  exactly that token.
\<close>

definition parse_value :: "instant \<Rightarrow> token list \<Rightarrow> py_exn + pql_value \<times> token list" where
  "parse_value t ts =
     (let tk = current_token ts in
      if fst tk = STRING then Inr (text_value (snd tk), tl ts)
      else if fst tk = NUMBER then
        (case snd tk of
           None \<Rightarrow> Inl TypeError
         | Some v \<Rightarrow>
             if v \<noteq> [] \<and> lower_char (last v) \<in> set ''hmsdw''
             then (case parse_time_value t v of
                     Inl x \<Rightarrow> Inl x
                   | Inr i \<Rightarrow> Inr (VTime i, tl ts))
             else if CHR ''.'' \<notin> set v
             then (case py_int v of
                     None \<Rightarrow> Inl PQLSyntaxError
                   | Some n \<Rightarrow> Inr (VInt n, tl ts))
             else (case py_float v of
                     None \<Rightarrow> Inl PQLSyntaxError
                   | Some f \<Rightarrow> Inr (VFloat f, tl ts)))
      else if fst tk = IDENTIFIER then Inr (text_value (snd tk), tl ts)
      else if snd tk = Some ''NOW'' then
        (case consume (Some KEYWORD) (Some ''NOW'') ts of
           Inl x \<Rightarrow> Inl x
         | Inr r \<Rightarrow> Inr (VTime t, snd r))
      else if snd tk = Some ''TRUE'' \<or> snd tk = Some ''FALSE'' then
        (case consume (Some KEYWORD) None ts of
           Inl x \<Rightarrow> Inl x
         | Inr r \<Rightarrow> Inr (VBool (snd (fst r) = Some ''TRUE''), snd r))
      else if snd tk = Some ''NULL'' then
        (case consume (Some KEYWORD) None ts of
           Inl x \<Rightarrow> Inl x
         | Inr r \<Rightarrow> Inr (VNull, snd r))
      else Inl PQLSyntaxError)"

lemma consume_rest: "consume a b ts = Inr r \<Longrightarrow> snd r = tl ts"
  by (auto simp: consume_def Let_def split: if_splits)

lemma parse_value_rest:
  assumes "parse_value t ts = Inr r"
  shows "snd r = tl ts \<and> ts \<noteq> []"
proof -
  have "ts \<noteq> []"
    using assms by (auto simp: parse_value_def current_token_def)
  moreover have "snd r = tl ts"
    using assms
    by (auto simp: parse_value_def Let_def dest: consume_rest
        split: if_splits option.splits sum.splits)
  ultimately show ?thesis by simp
qed

text \<open>The loop over the values of an \<open>IN\<close> list, up to the closing parenthesis.\<close>

function in_values :: "instant \<Rightarrow> token list \<Rightarrow> py_exn + pql_value list \<times> token list" where
  "in_values t ts =
     (if fst (current_token ts) = RPAREN then Inr ([], ts)
      else (case parse_value t ts of
              Inl x \<Rightarrow> Inl x
            | Inr r \<Rightarrow>
                (case in_values t (if fst (current_token (snd r)) = COMMA then tl (snd r)
                                   else snd r) of
                   Inl x \<Rightarrow> Inl x
                 | Inr rest \<Rightarrow> Inr (fst r # fst rest, snd rest))))"
  by pat_completeness auto
termination
proof (relation "measure (\<lambda>(t, ts). length ts)")
  show "wf (measure (\<lambda>(t, ts). length ts))" by simp
next
  fix t :: instant and ts :: "token list" and r :: "pql_value \<times> token list"
  assume "parse_value t ts = Inr r"
  then have "snd r = tl ts" and "ts \<noteq> []"
    using parse_value_rest by blast+
  then show "((t, if fst (current_token (snd r)) = COMMA then tl (snd r) else snd r), (t, ts))
               \<in> measure (\<lambda>(t, ts). length ts)"
    by (cases ts) (auto simp: less_Suc_eq_le)
qed

declare in_values.simps [simp del]

lemma in_values_shorter: "in_values t ts = Inr r \<Longrightarrow> length (snd r) \<le> length ts"
proof (induction t ts arbitrary: r rule: in_values.induct)
  case (1 t ts)
  show ?case
  proof (cases "fst (current_token ts) = RPAREN")
    case True
    then show ?thesis
      using "1.prems" by (auto simp: in_values.simps [of t ts])
  next
    case False
    then obtain v rest where v: "parse_value t ts = Inr v"
      and rest: "in_values t (if fst (current_token (snd v)) = COMMA then tl (snd v)
                              else snd v) = Inr rest"
      and r: "r = (fst v # fst rest, snd rest)"
      using "1.prems" by (auto simp: in_values.simps [of t ts] split: sum.splits)
    have "length (snd rest)
            \<le> length (if fst (current_token (snd v)) = COMMA then tl (snd v) else snd v)"
      using "1.IH" [OF False v rest] .
    moreover have "snd v = tl ts"
      using parse_value_rest [OF v] by simp
    ultimately show ?thesis
      using r by (auto split: if_splits)
  qed
qed

text \<open>The operator text of a token.\<close>

definition token_text :: "token \<Rightarrow> string" where
  "token_text tk = (case snd tk of None \<Rightarrow> [] | Some s \<Rightarrow> s)"

definition parse_condition :: "instant \<Rightarrow> token list \<Rightarrow> py_exn + cond_item \<times> token list" where
  "parse_condition t ts =
     (case consume (Some IDENTIFIER) None ts of
        Inl x \<Rightarrow> Inl x
      | Inr f \<Rightarrow>
          (let field = token_text (fst f); ts1 = snd f; tk = current_token ts1 in
           if fst tk = COMPARISON then
             (case consume (Some COMPARISON) None ts1 of
                Inl x \<Rightarrow> Inl x
              | Inr k \<Rightarrow>
                  (case parse_value t (snd k) of
                     Inl x \<Rightarrow> Inl x
                   | Inr r \<Rightarrow> Inr (Cond field (token_text (fst k)) (fst r), snd r)))
           else if snd tk = Some ''CONTAINS'' then
             (case consume (Some KEYWORD) (Some ''CONTAINS'') ts1 of
                Inl x \<Rightarrow> Inl x
              | Inr k \<Rightarrow>
                  (case parse_value t (snd k) of
                     Inl x \<Rightarrow> Inl x
                   | Inr r \<Rightarrow> Inr (Cond field ''CONTAINS'' (fst r), snd r)))
           else if snd tk = Some ''LIKE'' then
             (case consume (Some KEYWORD) (Some ''LIKE'') ts1 of
                Inl x \<Rightarrow> Inl x
              | Inr k \<Rightarrow>
                  (case parse_value t (snd k) of
                     Inl x \<Rightarrow> Inl x
                   | Inr r \<Rightarrow> Inr (Cond field ''LIKE'' (fst r), snd r)))
           else if snd tk = Some ''IN'' then
             (case consume (Some KEYWORD) (Some ''IN'') ts1 of
                Inl x \<Rightarrow> Inl x
              | Inr k \<Rightarrow>
                  (case consume (Some LPAREN) None (snd k) of
                     Inl x \<Rightarrow> Inl x
                   | Inr p \<Rightarrow>
                       (case in_values t (snd p) of
                          Inl x \<Rightarrow> Inl x
                        | Inr vs \<Rightarrow>
                            (case consume (Some RPAREN) None (snd vs) of
                               Inl x \<Rightarrow> Inl x
                             | Inr q \<Rightarrow> Inr (Cond field ''IN'' (VList (fst vs)), snd q)))))
           else Inl PQLSyntaxError))"

lemma bind_InrE:
  assumes "(case x of Inl e \<Rightarrow> Inl e | Inr v \<Rightarrow> g v) = Inr r"
  obtains v where "x = Inr v" and "g v = Inr r"
  using assms by (cases x) auto

lemma consume_shorter: "consume a b ts = Inr k \<Longrightarrow> length (snd k) \<le> length ts"
  by (drule consume_rest) simp

lemma parse_value_shorter: "parse_value t ts = Inr r \<Longrightarrow> length (snd r) \<le> length ts"
  by (drule parse_value_rest) simp

lemma parse_condition_shorter:
  assumes "parse_condition t ts = Inr c"
  shows "length (snd c) < length ts"
proof -
  obtain f where f: "consume (Some IDENTIFIER) None ts = Inr f"
    using assms unfolding parse_condition_def by (elim bind_InrE)
  have "ts \<noteq> []"
    using f by (auto simp: consume_def current_token_def Let_def split: if_splits)
  then have lt: "length (snd f) < length ts"
    using consume_rest [OF f] by (cases ts) auto
  have "length (snd c) \<le> length (snd f)"
    using assms unfolding parse_condition_def f Let_def
    by (auto elim!: bind_InrE dest!: consume_shorter parse_value_shorter in_values_shorter
        split: if_splits)
  then show ?thesis
    using lt by simp
qed

text \<open>\<open>parse_conditions\<close>: a condition, and after a connective the next one.\<close>

function parse_conditions ::
  "instant \<Rightarrow> token list \<Rightarrow> py_exn + cond_item list \<times> token list" where
  "parse_conditions t ts =
     (case parse_condition t ts of
        Inl x \<Rightarrow> Inl x
      | Inr c \<Rightarrow>
          (if fst (current_token (snd c)) = LOGICAL
           then (case consume (Some LOGICAL) None (snd c) of
                   Inl x \<Rightarrow> Inl x
                 | Inr k \<Rightarrow>
                     (case parse_conditions t (snd k) of
                        Inl x \<Rightarrow> Inl x
                      | Inr rest \<Rightarrow>
                          Inr (fst c # Logical (token_text (fst k)) # fst rest, snd rest)))
           else Inr ([fst c], snd c)))"
  by pat_completeness auto
termination
proof (relation "measure (\<lambda>(t, ts). length ts)")
  show "wf (measure (\<lambda>(t, ts). length ts))" by simp
next
  fix t :: instant and ts :: "token list" and c :: "cond_item \<times> token list"
    and k :: "token \<times> token list"
  assume c: "parse_condition t ts = Inr c"
    and k: "consume (Some LOGICAL) None (snd c) = Inr k"
  have "length (snd k) \<le> length (snd c)"
    using consume_rest [OF k] by simp
  then show "((t, snd k), (t, ts)) \<in> measure (\<lambda>(t, ts). length ts)"
    using parse_condition_shorter [OF c] by simp
qed

declare parse_conditions.simps [simp del]

text \<open>The clauses of the three commands, each reading the tree built so far.\<close>

definition where_clause ::
  "instant \<Rightarrow> pql_ast \<Rightarrow> token list \<Rightarrow> py_exn + pql_ast \<times> token list" where
  "where_clause t ast ts =
     (if snd (current_token ts) = Some ''WHERE'' then
        (case consume (Some KEYWORD) (Some ''WHERE'') ts of
           Inl x \<Rightarrow> Inl x
         | Inr k \<Rightarrow>
             (case parse_conditions t (snd k) of
                Inl x \<Rightarrow> Inl x
              | Inr cs \<Rightarrow> Inr (ast\<lparr>ast_conditions := Some (fst cs)\<rparr>, snd cs)))
      else Inr (ast, ts))"

definition order_clause :: "pql_ast \<Rightarrow> token list \<Rightarrow> py_exn + pql_ast \<times> token list" where
  "order_clause ast ts =
     (if snd (current_token ts) = Some ''ORDER'' then
        (case consume (Some KEYWORD) (Some ''ORDER'') ts of
           Inl x \<Rightarrow> Inl x
         | Inr k \<Rightarrow>
             (case consume (Some KEYWORD) (Some ''BY'') (snd k) of
                Inl x \<Rightarrow> Inl x
              | Inr b \<Rightarrow>
                  (case consume (Some IDENTIFIER) None (snd b) of
                     Inl x \<Rightarrow> Inl x
                   | Inr f \<Rightarrow>
                       (let ast1 = ast\<lparr>ast_order_by := snd (fst f)\<rparr>; ts1 = snd f in
                        if snd (current_token ts1) = Some ''ASC''
                           \<or> snd (current_token ts1) = Some ''DESC''
                        then (case consume (Some KEYWORD) None ts1 of
                                Inl x \<Rightarrow> Inl x
                              | Inr d \<Rightarrow> Inr (ast1\<lparr>ast_order_dir := snd (fst d)\<rparr>, snd d))
                        else Inr (ast1, ts1)))))
      else Inr (ast, ts))"

definition limit_clause :: "pql_ast \<Rightarrow> token list \<Rightarrow> py_exn + pql_ast \<times> token list" where
  "limit_clause ast ts =
     (if snd (current_token ts) = Some ''LIMIT'' then
        (case consume (Some KEYWORD) (Some ''LIMIT'') ts of
           Inl x \<Rightarrow> Inl x
         | Inr k \<Rightarrow>
             (case consume (Some NUMBER) None (snd k) of
                Inl x \<Rightarrow> Inl x
              | Inr n \<Rightarrow>
                  (case snd (fst n) of
                     None \<Rightarrow> Inl TypeError
                   | Some v \<Rightarrow>
                       (case py_int v of
                          None \<Rightarrow> Inl ValueError
                        | Some l \<Rightarrow> Inr (ast\<lparr>ast_limit := Some l\<rparr>, snd n)))))
      else Inr (ast, ts))"

definition by_clause :: "pql_ast \<Rightarrow> token list \<Rightarrow> py_exn + pql_ast \<times> token list" where
  "by_clause ast ts =
     (case consume (Some KEYWORD) (Some ''BY'') ts of
        Inl x \<Rightarrow> Inl x
      | Inr b \<Rightarrow>
          (case consume (Some IDENTIFIER) None (snd b) of
             Inl x \<Rightarrow> Inl x
           | Inr f \<Rightarrow> Inr (ast\<lparr>ast_group_by := snd (fst f)\<rparr>, snd f)))"

text \<open>The optional source or target after the command word.\<close>

definition source_name :: "token list \<Rightarrow> string option \<times> token list" where
  "source_name ts =
     (if fst (current_token ts) = IDENTIFIER then (snd (current_token ts), tl ts)
      else (Some ''events'', ts))"

definition parse_search :: "instant \<Rightarrow> token list \<Rightarrow> py_exn + pql_ast" where
  "parse_search t ts =
     (case consume (Some KEYWORD) (Some ''SEARCH'') ts of
        Inl x \<Rightarrow> Inl x
      | Inr k \<Rightarrow>
          (let s = source_name (snd k);
               result = \<lparr>command = ''SEARCH'', ast_source = fst s, ast_target = None,
                         ast_conditions = Some [], ast_order_by = None,
                         ast_order_dir = Some ''DESC'', ast_limit = Some 100,
                         ast_offset = Some 0, ast_group_by = None, ast_aggregations = None,
                         ast_within = None\<rparr>
           in case where_clause t result (snd s) of
                Inl x \<Rightarrow> Inl x
              | Inr w \<Rightarrow>
                  (case order_clause (fst w) (snd w) of
                     Inl x \<Rightarrow> Inl x
                   | Inr ob \<Rightarrow>
                       (case limit_clause (fst ob) (snd ob) of
                          Inl x \<Rightarrow> Inl x
                        | Inr l \<Rightarrow> Inr (fst l)))))"

definition parse_hunt :: "instant \<Rightarrow> token list \<Rightarrow> py_exn + pql_ast" where
  "parse_hunt t ts =
     (case consume (Some KEYWORD) (Some ''HUNT'') ts of
        Inl x \<Rightarrow> Inl x
      | Inr k \<Rightarrow>
          (let s = source_name (snd k);
               result = \<lparr>command = ''HUNT'', ast_source = None, ast_target = fst s,
                         ast_conditions = Some [], ast_order_by = None, ast_order_dir = None,
                         ast_limit = Some 500, ast_offset = None, ast_group_by = None,
                         ast_aggregations = None, ast_within = None\<rparr>
           in case where_clause t result (snd s) of
                Inl x \<Rightarrow> Inl x
              | Inr w \<Rightarrow>
                  (case (if snd (current_token (snd w)) = Some ''GROUP''
                         then (case consume (Some KEYWORD) (Some ''GROUP'') (snd w) of
                                 Inl x \<Rightarrow> Inl x
                               | Inr g \<Rightarrow> by_clause (fst w) (snd g))
                         else Inr w) of
                     Inl x \<Rightarrow> Inl x
                   | Inr g \<Rightarrow>
                       (case limit_clause (fst g) (snd g) of
                          Inl x \<Rightarrow> Inl x
                        | Inr l \<Rightarrow> Inr (fst l)))))"

definition is_aggregate_function :: "string option \<Rightarrow> bool" where
  "is_aggregate_function v =
     (v \<in> set [Some ''COUNT'', Some ''SUM'', Some ''AVG'', Some ''MIN'', Some ''MAX''])"

definition parse_aggregate :: "instant \<Rightarrow> token list \<Rightarrow> py_exn + pql_ast" where
  "parse_aggregate t ts =
     (case consume (Some KEYWORD) (Some ''AGGREGATE'') ts of
        Inl x \<Rightarrow> Inl x
      | Inr k \<Rightarrow>
          (let s = source_name (snd k);
               result = \<lparr>command = ''AGGREGATE'', ast_source = fst s, ast_target = None,
                         ast_conditions = Some [], ast_order_by = None, ast_order_dir = None,
                         ast_limit = None, ast_offset = None, ast_group_by = None,
                         ast_aggregations = Some [], ast_within = None\<rparr>
           in case (if snd (current_token (snd s)) = Some ''BY''
                    then by_clause result (snd s) else Inr (result, snd s)) of
                Inl x \<Rightarrow> Inl x
              | Inr g \<Rightarrow>
                  (case (if is_aggregate_function (snd (current_token (snd g)))
                         then (case consume (Some KEYWORD) None (snd g) of
                                 Inl x \<Rightarrow> Inl x
                               | Inr f \<Rightarrow>
                                   Inr ((fst g)\<lparr>ast_aggregations :=
                                          Some [token_text (fst f)]\<rparr>, snd f))
                         else Inr g) of
                     Inl x \<Rightarrow> Inl x
                   | Inr a \<Rightarrow>
                       (case where_clause t (fst a) (snd a) of
                          Inl x \<Rightarrow> Inl x
                        | Inr w \<Rightarrow>
                            (if snd (current_token (snd w)) = Some ''WITHIN''
                             then (case consume (Some KEYWORD) (Some ''WITHIN'') (snd w) of
                                     Inl x \<Rightarrow> Inl x
                                   | Inr i \<Rightarrow>
                                       (case parse_value t (snd i) of
                                          Inl x \<Rightarrow> Inl x
                                        | Inr v \<Rightarrow>
                                            Inr ((fst w)\<lparr>ast_within := Some (fst v)\<rparr>)))
                             else Inr (fst w))))))"

definition parse :: "instant \<Rightarrow> token list \<Rightarrow> py_exn + pql_ast" where
  "parse t ts =
     (let tk = current_token ts in
      if fst tk = KEYWORD \<and> snd tk = Some ''SEARCH'' then parse_search t ts
      else if fst tk = KEYWORD \<and> snd tk = Some ''HUNT'' then parse_hunt t ts
      else if fst tk = KEYWORD \<and> snd tk = Some ''AGGREGATE'' then parse_aggregate t ts
      else Inl PQLSyntaxError)"

subsection \<open>The entry point\<close>

text \<open>
  The caller's limit of \<open>execute_pql\<close>: when it is an integer from 1 to 5000, it replaces
  a missing or larger limit of the tree.
\<close>

definition override_limit :: "int option \<Rightarrow> pql_ast \<Rightarrow> pql_ast" where
  "override_limit caller ast =
     (case caller of
        None \<Rightarrow> ast
      | Some l \<Rightarrow>
          if 1 \<le> l \<and> l \<le> 5000
          then (case ast_limit ast of
                  None \<Rightarrow> ast\<lparr>ast_limit := Some l\<rparr>
                | Some al \<Rightarrow> if l < al then ast\<lparr>ast_limit := Some l\<rparr> else ast)
          else ast)"

text \<open>
  \<open>execute_pql\<close>, with the store and the reading of the clock as arguments; a caller
  that passes no integer passes \<open>None\<close>.
\<close>

definition execute_pql ::
  "('row, 'out) store \<Rightarrow> instant \<Rightarrow> string \<Rightarrow> int option \<Rightarrow> py_exn + 'out list" where
  "execute_pql st t query_string caller =
     (if query_string = [] \<or> str_strip query_string = [] then Inl PQLSyntaxError
      else (case parse t (tokenize query_string) of
              Inl x \<Rightarrow> Inl x
            | Inr ast \<Rightarrow> execute st t (override_limit caller ast)))"

section \<open>The ingestion loop and concrete inputs\<close>

text \<open>
  The loop of the ingestion view (apps/events/views.py): every stored event of a batch
  goes through \<open>process_event\<close>, in order; the result keeps the alerts of each event.
\<close>

fun detect_batch ::
  "env \<Rightarrow> engine_state \<Rightarrow> event list \<Rightarrow> alert list list \<times> engine_state" where
  "detect_batch e s [] = ([], s)"
| "detect_batch e s (ev # evs) =
     (let r = process_event e s ev; rest = detect_batch e (snd r) evs
      in (fst r # fst rest, snd rest))"

text \<open>
  Concrete inputs for the examples below. The clock stands at 2026-11-04 00:00:00 UTC; the
  stand-in for the regular-expression library reads a pattern as literal text.
\<close>

definition demo_now :: instant where
  "demo_now = 1793750400000000"

definition demo_env :: env where
  "demo_env =
     \<lparr>now = demo_now,
      re_match = (\<lambda>p s. Inr (startswith (str_lower s) (str_lower p))),
      re_search = (\<lambda>p s. Inr (str_contains (str_lower s) (str_lower p))),
      repr_counts = (\<lambda>cs. ''{}''),
      repr_id_set = (\<lambda>xs. ''[]'')\<rparr>"

definition at_time :: "instant \<Rightarrow> env" where
  "at_time t = demo_env\<lparr>now := t\<rparr>"

definition empty_logic :: logic where
  "empty_logic =
     \<lparr>lg_event_ids = None, exclude_system_accounts = None, track_by = None,
      window_minutes = None, track_unique = None, threshold = None,
      unique_threshold = None, sequence = None, patterns = None,
      required_matches = None, required_events = None, min_counts = None\<rparr>"

definition fresh_state :: "rule list \<Rightarrow> suppression list \<Rightarrow> engine_state" where
  "fresh_state rs sps =
     \<lparr>trackers = [], next_tracker_pk = 1, alerts = [], rules = rs, suppressions = sps\<rparr>"

text \<open>The built-in rule "Mass Account Lockouts" (apps/detection/builtin_rules.py).\<close>

definition lockout_rule :: rule where
  "lockout_rule =
     \<lparr>rule_id = ''mass-account-lockouts'', rule_name = ''Mass Account Lockouts'',
      severity = ''HIGH'', rule_type = ''THRESHOLD'',
      rule_logic = empty_logic\<lparr>track_by := Some ''hostname'', window_minutes := Some 10,
                     lg_event_ids := Some [4740], threshold := Some 5,
                     track_unique := Some [''target_user_name'']\<rparr>,
      cooldown_minutes = 30, min_confidence = 70, total_alerts = 0\<rparr>"

text \<open>The \<open>k\<close>-th lockout of an account on the host DC01, \<open>k\<close> seconds into the last five
  minutes.\<close>

definition lockout_event :: "int \<Rightarrow> event" where
  "lockout_event k =
     \<lparr>ev_pk = k, event_id = 4740, timestamp = demo_now - minutes 5 + seconds k,
      hostname = ''DC01'', user_name = Some ''alice'', target_user_name = Some ''bob'',
      source_ip = Some ''10.0.0.7'', process_name = None, service_name = None, attrs = []\<rparr>"

text \<open>A housekeeping event of the noise set, and an event that names no account.\<close>

definition noise_event :: event where
  "noise_event = (lockout_event 1)\<lparr>event_id := 4798\<rparr>"

definition anonymous_event :: event where
  "anonymous_event = (lockout_event 1)\<lparr>user_name := Some [], target_user_name := None\<rparr>"

text \<open>A state with a tracker in it: the state after the first lockout.\<close>

definition one_lockout :: engine_state where
  "one_lockout = snd (process_event demo_env (fresh_state [lockout_rule] []) (lockout_event 1))"

text \<open>
  The built-in rule "Security Log Cleared", an event that clears the log of DC01, and a
  suppression rule for that host: enabled, without expiry, one condition on the hostname.
\<close>

definition logclear_rule :: rule where
  "logclear_rule =
     \<lparr>rule_id = ''security-log-cleared'', rule_name = ''Security Log Cleared'',
      severity = ''CRITICAL'', rule_type = ''THRESHOLD'',
      rule_logic = empty_logic\<lparr>track_by := Some ''hostname'', window_minutes := Some 5,
                     lg_event_ids := Some [1102, 104], threshold := Some 1,
                     exclude_system_accounts := Some False\<rparr>,
      cooldown_minutes = 60, min_confidence = 50, total_alerts = 0\<rparr>"

definition logclear_event :: event where
  "logclear_event = (lockout_event 1)\<lparr>event_id := 1102\<rparr>"

definition dc01_suppression :: suppression where
  "dc01_suppression =
     \<lparr>sup_enabled = True, detection_rule = ''security-log-cleared'', expires_at = None,
      conditions = [(''hostname'', PList [''dc01''])]\<rparr>"

text \<open>
  The built-in rule "Brute Force Attack - Failed Logons then Success", a tracker that has
  counted five failed logons (4625) and one success (4624), and the two kinds of event.
\<close>

definition brute_rule :: rule where
  "brute_rule =
     \<lparr>rule_id = ''brute-force'', rule_name = ''Brute Force Attack'',
      severity = ''HIGH'', rule_type = ''SEQUENCE'',
      rule_logic = empty_logic\<lparr>track_by := Some ''target_user'', window_minutes := Some 10,
                     exclude_system_accounts := Some True,
                     sequence := Some [\<lparr>step_event_ids = None, step_event_id = Some 4625,
                                         step_count = Some 5\<rparr>,
                                       \<lparr>step_event_ids = None, step_event_id = Some 4624,
                                         step_count = Some 1\<rparr>],
                     track_unique := Some [''source_ip'']\<rparr>,
      cooldown_minutes = 30, min_confidence = 75, total_alerts = 0\<rparr>"

definition failed_logon :: "int \<Rightarrow> event" where
  "failed_logon k = (lockout_event k)\<lparr>event_id := 4625\<rparr>"

definition good_logon :: "int \<Rightarrow> event" where
  "good_logon k = (lockout_event k)\<lparr>event_id := 4624\<rparr>"

definition brute_tracker :: tracker where
  "brute_tracker =
     \<lparr>tr_pk = 1, entity_type = ''TARGET_USER'', entity_value = ''bob'', tr_hostname = ''DC01'',
      window_start = demo_now - minutes 5, window_end = demo_now + minutes 5,
      event_counts = [(4625, 5), (4624, 1)], unique_values = [(''source_ip'', [''10.0.0.7''])],
      event_ids = [1, 2, 3, 4, 5, 6], last_event_time = Some (demo_now - minutes 1)\<rparr>"

text \<open>
  The same tracker one failed logon short of the first step, and a sequence rule whose
  final step also lists the event of its first step: two failed logons (4625), then a
  logon of either kind (4625 or 4624).
\<close>

definition short_tracker :: tracker where
  "short_tracker = brute_tracker\<lparr>event_counts := [(4625, 4), (4624, 1)]\<rparr>"

definition overlap_rule :: rule where
  "overlap_rule =
     brute_rule\<lparr>rule_logic := (rule_logic brute_rule)\<lparr>sequence :=
       Some [\<lparr>step_event_ids = None, step_event_id = Some 4625, step_count = Some 2\<rparr>,
             \<lparr>step_event_ids = Some [Some 4625, Some 4624], step_event_id = None,
                step_count = Some 1\<rparr>]\<rparr>\<rparr>"

text \<open>
  A threshold rule that tracks by process, and the start of a process; a lockout that
  reaches the engine three hours after it happened.
\<close>

definition process_rule :: rule where
  "process_rule =
     \<lparr>rule_id = ''suspicious-process'', rule_name = ''Suspicious Process'',
      severity = ''HIGH'', rule_type = ''THRESHOLD'',
      rule_logic = empty_logic\<lparr>track_by := Some ''process'', window_minutes := Some 10,
                     lg_event_ids := Some [4688], threshold := Some 1\<rparr>,
      cooldown_minutes = 30, min_confidence = 50, total_alerts = 0\<rparr>"

definition process_start :: "int \<Rightarrow> event" where
  "process_start k = (lockout_event k)\<lparr>event_id := 4688, process_name := Some ''mimikatz.exe''\<rparr>"


text \<open>
  The lockout rule with its confidence gate lowered to 50, and the tracker of DC01 after
  five lockouts.
\<close>

definition lenient_rule :: rule where
  "lenient_rule = lockout_rule\<lparr>min_confidence := 50\<rparr>"

text \<open>A second rule with the same logic as the lenient lockout rule.\<close>

definition twin_rule :: rule where
  "twin_rule = lenient_rule\<lparr>rule_id := ''mass-account-lockouts-b'',
                           rule_name := ''Mass Account Lockouts B''\<rparr>"




text \<open>
  The tracker of DC01 and the state after the log-clearing event has been counted, and
  the state after its alert has been created.
\<close>

definition dc01_tracker :: tracker where
  "dc01_tracker =
     fst (track_event demo_env (fresh_state [logclear_rule] []) (rule_logic logclear_rule)
            logclear_event)"

definition dc01_state :: engine_state where
  "dc01_state =
     snd (track_event demo_env (fresh_state [logclear_rule] []) (rule_logic logclear_rule)
            logclear_event)"

definition dc01_alerted :: engine_state where
  "dc01_alerted =
     snd (create_alert demo_env dc01_state logclear_rule logclear_event dc01_tracker
            (threshold_title logclear_rule dc01_tracker) [] 50 None)"





text \<open>
  A store for the examples of the query language. Its rows are three lockouts on DC01,
  its field names are the columns of \<open>SecurityEvent\<close> (apps/events/models.py). It
  filters on \<open>event_id\<close>, \<open>hostname\<close> and the lower bound of \<open>timestamp\<close>, orders by
  \<open>timestamp\<close>, groups by \<open>hostname\<close> when the count is among the annotations, and
  refuses every other field name with \<open>FieldError\<close>.
\<close>

definition SecurityEvent_fields :: "string list" where
  "SecurityEvent_fields =
     [''id'', ''event_id'', ''event_record_id'', ''correlation_id'', ''timestamp'',
      ''received_at'', ''source'', ''channel'', ''provider_name'', ''provider_guid'',
      ''hostname'', ''domain'', ''ip_address'', ''agent_id'', ''category'', ''severity'',
      ''level'', ''level_name'', ''task'', ''task_name'', ''opcode'', ''opcode_name'',
      ''keywords'', ''message'', ''raw_xml'', ''event_data'', ''user_data'', ''system_data'',
      ''user_name'', ''user_domain'', ''user_sid'', ''target_user_name'',
      ''target_user_domain'', ''target_user_sid'', ''process_id'', ''process_name'',
      ''process_path'', ''command_line'', ''parent_process_id'', ''parent_process_name'',
      ''parent_command_line'', ''source_ip'', ''source_port'', ''destination_ip'',
      ''destination_port'', ''protocol'', ''logon_type'', ''logon_type_name'', ''logon_id'',
      ''authentication_package'', ''workstation_name'', ''object_name'', ''object_type'',
      ''access_mask'', ''service_name'', ''service_type'', ''service_start_type'',
      ''service_account'', ''object_dn'', ''object_guid'', ''object_class'',
      ''attribute_name'', ''attribute_value'', ''ticket_encryption_type'',
      ''ticket_options'', ''service_name_kerberos'', ''file_hash_md5'', ''file_hash_sha1'',
      ''file_hash_sha256'', ''status'', ''status_code'', ''failure_reason'', ''full_text'',
      ''tags'', ''is_processed'', ''is_alerted'']"

datatype demo_out = Values event | Object event | Group string int

fun demo_match :: "qobj \<Rightarrow> event \<Rightarrow> bool option" where
  "demo_match (Q k v) ev =
     (if k = ''event_id'' then (case v of VInt n \<Rightarrow> Some (event_id ev = n) | _ \<Rightarrow> None)
      else if k = ''hostname'' then (case v of VStr s \<Rightarrow> Some (hostname ev = s) | _ \<Rightarrow> None)
      else if k = ''timestamp__gte''
      then (case v of VTime i \<Rightarrow> Some (i \<le> timestamp ev) | _ \<Rightarrow> None)
      else None)"
| "demo_match (QNot q) ev = map_option Not (demo_match q ev)"
| "demo_match (QAnd a b) ev =
     (case demo_match a ev of
        None \<Rightarrow> None
      | Some x \<Rightarrow> (case demo_match b ev of None \<Rightarrow> None | Some y \<Rightarrow> Some (x \<and> y)))"
| "demo_match (QOr a b) ev =
     (case demo_match a ev of
        None \<Rightarrow> None
      | Some x \<Rightarrow> (case demo_match b ev of None \<Rightarrow> None | Some y \<Rightarrow> Some (x \<or> y)))"

definition demo_filter :: "qobj \<Rightarrow> event list \<Rightarrow> py_exn + event list" where
  "demo_filter q rs =
     (if list_all (\<lambda>r. demo_match q r \<noteq> None) rs
      then Inr (filter (\<lambda>r. demo_match q r = Some True) rs)
      else Inl FieldError)"

definition demo_order :: "string \<Rightarrow> event list \<Rightarrow> py_exn + event list" where
  "demo_order f rs =
     (if f = ''timestamp'' then Inr (sort_key timestamp rs)
      else if f = ''-timestamp'' then Inr (rev (sort_key timestamp rs))
      else Inl FieldError)"

definition demo_group ::
  "string \<Rightarrow> (string \<times> string) list \<Rightarrow> event list \<Rightarrow> py_exn + demo_out list" where
  "demo_group f anns rs =
     (if f = ''hostname'' \<and> ''count'' \<in> set (map fst anns)
      then Inr (map (\<lambda>h. Group h (int (length (filter (\<lambda>r. hostname r = h) rs))))
                  (remdups (map hostname rs)))
      else Inl FieldError)"

definition demo_store :: "(event, demo_out) store" where
  "demo_store =
     \<lparr>all_rows = map lockout_event [1, 2, 3], model_fields = SecurityEvent_fields,
      parse_datetime = (\<lambda>s. None), apply_q = demo_filter, order_rows = demo_order,
      group_rows = demo_group, row_values = Values, row_object = Object\<rparr>"

text \<open>
  Queries for the examples, each with the tree the parser makes of it: a search for the
  lockouts limited to two rows, a search on a field the schema does not have, and the
  same search with a negative limit.
\<close>

definition limit_query :: string where
  "limit_query = ''SEARCH WHERE event_id = 4740 LIMIT 2''"

definition limit_ast :: pql_ast where
  "limit_ast =
     \<lparr>command = ''SEARCH'', ast_source = Some ''events'', ast_target = None,
      ast_conditions = Some [Cond ''event_id'' ''='' (VInt 4740)], ast_order_by = None,
      ast_order_dir = Some ''DESC'', ast_limit = Some 2, ast_offset = Some 0,
      ast_group_by = None, ast_aggregations = None, ast_within = None\<rparr>"

definition aggregate_query :: string where
  "aggregate_query = ''AGGREGATE BY hostname COUNT''"

definition aggregate_ast :: pql_ast where
  "aggregate_ast =
     \<lparr>command = ''AGGREGATE'', ast_source = Some ''events'', ast_target = None,
      ast_conditions = Some [], ast_order_by = None, ast_order_dir = None,
      ast_limit = None, ast_offset = None, ast_group_by = Some ''hostname'',
      ast_aggregations = Some [''COUNT''], ast_within = None\<rparr>"

definition bogus_query :: string where
  "bogus_query = ''SEARCH WHERE bogus_field = 1''"

definition bogus_ast :: pql_ast where
  "bogus_ast =
     limit_ast\<lparr>ast_conditions := Some [Cond ''bogus_field'' ''='' (VInt 1)],
               ast_limit := Some 100\<rparr>"

definition negative_query :: string where
  "negative_query = ''SEARCH WHERE bogus_field = 1 LIMIT -5''"

definition negative_ast :: pql_ast where
  "negative_ast = bogus_ast\<lparr>ast_limit := Some (- 5)\<rparr>"

section \<open>Properties of the detection engine\<close>

subsection \<open>Noise events and unnamed actors\<close>

lemma one_lockout_rules:
  "rules one_lockout = [lockout_rule] \<and> length (trackers one_lockout) = 1"
  by code_simp

text \<open>
  Claim C9. For every event whose \<open>event_id\<close> is in the fixed noise set, \<open>process_event\<close>
  returns the empty alert list and leaves the whole state as it was: no tracker is
  created, extended or incremented, and no rule is evaluated.
\<close>

theorem noise_event_returns_nothing:
  assumes "event_id ev \<in> set NOISE_EVENT_IDS"
  shows "process_event e s ev = ([], s)"
  using assms by (simp add: process_event_def)

theorem noise_event_returns_nothing_witness:
  "event_id noise_event \<in> set NOISE_EVENT_IDS
   \<and> rules one_lockout = [lockout_rule] \<and> length (trackers one_lockout) = 1
   \<and> process_event demo_env one_lockout noise_event = ([], one_lockout)"
proof -
  have h: "event_id noise_event \<in> set NOISE_EVENT_IDS"
    by (simp add: noise_event_def NOISE_EVENT_IDS_def)
  from noise_event_returns_nothing [OF h] one_lockout_rules h show ?thesis by simp
qed

lemma is_system_account_empty: "\<not> nonempty u \<Longrightarrow> is_system_account u"
  by (cases u) auto

lemma evaluate_rule_skips_system:
  assumes "excludes_system (rule_logic r)"
  shows "evaluate_rule e s r ev True True = (Inr None, s)"
  using assms by (simp add: evaluate_rule_def skips_def Let_def)

lemma process_rules_skip_system:
  assumes "list_all (\<lambda>r. excludes_system (rule_logic r)) rs"
  shows "process_rules e ev True True rs s = ([], s)"
  using assms by (induction rs) (simp_all add: evaluate_rule_skips_system Let_def)

text \<open>
  Claim C10. \<open>is_system_account\<close> is true of every empty or missing user name \<open>u\<close>. So
  for an event whose \<open>user_name\<close> and \<open>target_user_name\<close> are both empty or missing, a
  rule \<open>r\<close> that leaves \<open>exclude_system_accounts\<close> at its default returns no alert and
  leaves the state (the trackers with it) unchanged, and when every cached rule is such a
  rule \<open>process_event\<close> returns no alert and changes nothing.
\<close>

theorem unnamed_actor_is_system_account:
  assumes "\<not> nonempty u"
    and "\<not> nonempty (user_name ev)" and "\<not> nonempty (target_user_name ev)"
    and "exclude_system_accounts (rule_logic r) = None"
    and "list_all (\<lambda>x. exclude_system_accounts (rule_logic x) = None) (rules s)"
  shows "is_system_account u
     \<and> evaluate_rule e s r ev (is_system_account (user_name ev))
          (is_system_account (target_user_name ev)) = (Inr None, s)
     \<and> process_event e s ev = ([], s)"
proof -
  have u: "is_system_account (user_name ev)" and t: "is_system_account (target_user_name ev)"
    using assms(2,3) by (simp_all add: is_system_account_empty)
  have r: "excludes_system (rule_logic r)"
    using assms(4) by (simp add: excludes_system_def)
  have "list_all (\<lambda>x. excludes_system (rule_logic x)) (rules s)"
    using assms(5) by (simp add: excludes_system_def list_all_iff)
  then have "process_rules e ev True True (rules s) s = ([], s)"
    by (rule process_rules_skip_system)
  then have "process_event e s ev = ([], s)"
    using u t by (simp add: process_event_def)
  then show ?thesis
    using assms(1) u t r by (simp add: is_system_account_empty evaluate_rule_skips_system)
qed

theorem unnamed_actor_is_system_account_witness:
  "\<not> nonempty (user_name anonymous_event) \<and> \<not> nonempty (target_user_name anonymous_event)
   \<and> exclude_system_accounts (rule_logic lockout_rule) = None
   \<and> rules one_lockout = [lockout_rule] \<and> length (trackers one_lockout) = 1
   \<and> is_system_account None \<and> is_system_account (Some [])
   \<and> evaluate_rule demo_env one_lockout lockout_rule anonymous_event
        (is_system_account (user_name anonymous_event))
        (is_system_account (target_user_name anonymous_event)) = (Inr None, one_lockout)
   \<and> process_event demo_env one_lockout anonymous_event = ([], one_lockout)"
proof -
  have a: "\<not> nonempty (user_name anonymous_event)"
    "\<not> nonempty (target_user_name anonymous_event)"
    by (simp_all add: anonymous_event_def)
  have b: "exclude_system_accounts (rule_logic lockout_rule) = None"
    by (simp add: lockout_rule_def empty_logic_def)
  have c: "list_all (\<lambda>x. exclude_system_accounts (rule_logic x) = None) (rules one_lockout)"
    using one_lockout_rules b by simp
  have d: "is_system_account None" "is_system_account (Some [])"
    by simp_all
  from unnamed_actor_is_system_account [OF a(1) a b c, of demo_env] a b d one_lockout_rules
  show ?thesis by blast
qed

subsection \<open>Alert creation and suppression\<close>

lemma create_alert_Some:
  assumes "fst (create_alert e s r ev tr ttl descr conf extra) = Some a"
  shows "confidence a = conf \<and> min_confidence r \<le> conf
     \<and> \<not> check_cooldown e s r (entity_value tr) (entity_type tr)
     \<and> triggered_at a = now e \<and> al_rule a = rule_id r
     \<and> snd (create_alert e s r ev tr ttl descr conf extra)
         = bump_total r (s\<lparr>alerts := alerts s @ [a]\<rparr>)"
  using assms by (auto simp add: create_alert_def Let_def split: if_splits)

lemma create_alert_None:
  assumes "fst (create_alert e s r ev tr ttl descr conf extra) = None"
  shows "snd (create_alert e s r ev tr ttl descr conf extra) = s"
  using assms by (auto simp add: create_alert_def Let_def split: if_splits)

lemma create_alert_passes:
  assumes "\<not> check_cooldown e s r (entity_value tr) (entity_type tr)"
    and "min_confidence r \<le> conf"
  shows "\<exists>a. create_alert e s r ev tr ttl descr conf extra
             = (Some a, bump_total r (s\<lparr>alerts := alerts s @ [a]\<rparr>))
           \<and> confidence a = conf \<and> triggered_at a = now e \<and> al_rule a = rule_id r"
  using assms by (simp add: create_alert_def Let_def)


text \<open>
  Claim C1 says that an active suppression rule whose conditions match the event keeps
  \<open>create_alert\<close> from creating an alert. \<open>check_suppression\<close> is defined but nothing
  calls it: \<open>create_alert\<close> consults the cooldown and the confidence gate only. Here the
  suppression rule for DC01 is enabled, has no expiry and matches the event's hostname, so
  \<open>check_suppression\<close> answers true; the log-clearing event is processed all the same
  into one alert of confidence 50, stored, and the rule's \<open>total_alerts\<close> goes from 0
  to 1.
\<close>

theorem suppressed_alert_is_still_created:
  "check_suppression demo_env (fresh_state [logclear_rule] [dc01_suppression])
      logclear_rule logclear_event = Inr True
   \<and> map confidence
        (fst (process_event demo_env (fresh_state [logclear_rule] [dc01_suppression])
                logclear_event)) = [50]
   \<and> map total_alerts
        (rules (snd (process_event demo_env (fresh_state [logclear_rule] [dc01_suppression])
                       logclear_event))) = [1]
   \<and> length (alerts (snd (process_event demo_env
                 (fresh_state [logclear_rule] [dc01_suppression]) logclear_event))) = 1"
  by code_simp

subsection \<open>Sequence rules\<close>

lemma brute_run:
  "map_option confidence
     (fst (evaluate_sequence demo_env (fresh_state [brute_rule] []) brute_rule (good_logon 7)
             brute_tracker)) = Some 85"
  "Some (event_id (failed_logon 7)) \<notin> set (step_ids (last (rule_sequence brute_rule)))"
  by code_simp+

lemma short_run:
  "list_ex (\<lambda>st. sum_list (map (id_count short_tracker) (step_ids st))
                   < (case step_count st of None \<Rightarrow> 1 | Some c \<Rightarrow> c))
     (rule_sequence brute_rule)"
  "map length (fst (detect_batch demo_env (fresh_state [brute_rule] [])
      (map failed_logon [1, 2, 3, 4, 5] @ [good_logon 6]))) = [0, 0, 0, 0, 0, 1]"
  "map length (fst (detect_batch demo_env (fresh_state [brute_rule] [])
      (map failed_logon [1, 2, 3, 4] @ [good_logon 5]))) = [0, 0, 0, 0, 0]"
  by code_simp+

text \<open>
  Claim C6, amended. With the required count of a step its \<open>count\<close> (1 when absent) and
  the count of a step the sum of the tracker's counters of the step's event ids, a
  SEQUENCE rule returns an alert only when the sequence has at least two steps, every
  step's count reaches the step's required count, and the id of the triggering event is
  among the event ids of the final step; the alert then has confidence exactly 85. An
  event whose id is not among the final step's ids never fires, whatever the counts, and
  no event fires while a step is short of its required count or the sequence has fewer
  than two steps. When the three conditions hold the rule fires: the result is that of
  \<open>create_alert\<close> with confidence 85. (An event of a non-final step whose id the final
  step lists as well is an event of the final step, and fires.)
\<close>

theorem sequence_fires_on_final_step:
  "(fst (evaluate_sequence e s r ev tr) = Some a \<longrightarrow>
      2 \<le> length (rule_sequence r)
      \<and> list_all (\<lambda>st. (case step_count st of None \<Rightarrow> 1 | Some c \<Rightarrow> c)
                         \<le> sum_list (map (id_count tr) (step_ids st))) (rule_sequence r)
      \<and> Some (event_id ev) \<in> set (step_ids (last (rule_sequence r)))
      \<and> confidence a = 85)
   \<and> (Some (event_id ev) \<notin> set (step_ids (last (rule_sequence r))) \<longrightarrow>
        evaluate_sequence e s r ev tr = (None, s))
   \<and> (list_ex (\<lambda>st. sum_list (map (id_count tr) (step_ids st))
                       < (case step_count st of None \<Rightarrow> 1 | Some c \<Rightarrow> c)) (rule_sequence r) \<longrightarrow>
        evaluate_sequence e s r ev tr = (None, s))
   \<and> (length (rule_sequence r) < 2 \<longrightarrow> evaluate_sequence e s r ev tr = (None, s))
   \<and> (2 \<le> length (rule_sequence r)
        \<and> list_all (\<lambda>st. (case step_count st of None \<Rightarrow> 1 | Some c \<Rightarrow> c)
                           \<le> sum_list (map (id_count tr) (step_ids st))) (rule_sequence r)
        \<and> Some (event_id ev) \<in> set (step_ids (last (rule_sequence r))) \<longrightarrow>
        evaluate_sequence e s r ev tr
          = create_alert e s r ev tr (sequence_title r tr) (sequence_description e tr) 85 None)"
proof -
  have "step_met tr = (\<lambda>st. (case step_count st of None \<Rightarrow> 1 | Some c \<Rightarrow> c)
                              \<le> sum_list (map (id_count tr) (step_ids st)))"
    by (rule ext) (simp add: step_met_def step_required_def step_actual_def not_less)
  then have met: "list_all (step_met tr) sq
      = list_all (\<lambda>st. (case step_count st of None \<Rightarrow> 1 | Some c \<Rightarrow> c)
                         \<le> sum_list (map (id_count tr) (step_ids st))) sq" for sq
    by simp
  have short: "list_ex (\<lambda>st. sum_list (map (id_count tr) (step_ids st))
                       < (case step_count st of None \<Rightarrow> 1 | Some c \<Rightarrow> c)) sq
      = (\<not> list_all (step_met tr) sq)" for sq
    by (induction sq) (auto simp add: step_met_def step_required_def step_actual_def)
  have one: "fst (evaluate_sequence e s r ev tr) = Some a \<longrightarrow>
      2 \<le> length (rule_sequence r)
      \<and> list_all (\<lambda>st. (case step_count st of None \<Rightarrow> 1 | Some c \<Rightarrow> c)
                         \<le> sum_list (map (id_count tr) (step_ids st))) (rule_sequence r)
      \<and> Some (event_id ev) \<in> set (step_ids (last (rule_sequence r)))
      \<and> confidence a = 85"
    by (auto simp add: evaluate_sequence_def Let_def met split: if_splits
          dest: create_alert_Some)
  have two: "Some (event_id ev) \<notin> set (step_ids (last (rule_sequence r))) \<longrightarrow>
        evaluate_sequence e s r ev tr = (None, s)"
    by (simp add: evaluate_sequence_def Let_def)
  have three: "list_ex (\<lambda>st. sum_list (map (id_count tr) (step_ids st))
                       < (case step_count st of None \<Rightarrow> 1 | Some c \<Rightarrow> c)) (rule_sequence r) \<longrightarrow>
        evaluate_sequence e s r ev tr = (None, s)"
    by (simp add: evaluate_sequence_def Let_def short)
  have four: "length (rule_sequence r) < 2 \<longrightarrow> evaluate_sequence e s r ev tr = (None, s)"
    by (simp add: evaluate_sequence_def Let_def)
  have five: "2 \<le> length (rule_sequence r)
        \<and> list_all (\<lambda>st. (case step_count st of None \<Rightarrow> 1 | Some c \<Rightarrow> c)
                           \<le> sum_list (map (id_count tr) (step_ids st))) (rule_sequence r)
        \<and> Some (event_id ev) \<in> set (step_ids (last (rule_sequence r))) \<longrightarrow>
        evaluate_sequence e s r ev tr
          = create_alert e s r ev tr (sequence_title r tr) (sequence_description e tr) 85 None"
    by (simp add: evaluate_sequence_def Let_def met)
  from one two three four five show ?thesis by blast
qed

theorem sequence_fires_on_final_step_witness:
  "(\<exists>a. fst (evaluate_sequence demo_env (fresh_state [brute_rule] []) brute_rule (good_logon 7)
             brute_tracker) = Some a
      \<and> 2 \<le> length (rule_sequence brute_rule)
      \<and> list_all (\<lambda>st. (case step_count st of None \<Rightarrow> 1 | Some c \<Rightarrow> c)
                         \<le> sum_list (map (id_count brute_tracker) (step_ids st)))
           (rule_sequence brute_rule)
      \<and> Some (event_id (good_logon 7)) \<in> set (step_ids (last (rule_sequence brute_rule)))
      \<and> confidence a = 85)
   \<and> Some (event_id (failed_logon 7)) \<notin> set (step_ids (last (rule_sequence brute_rule)))
   \<and> evaluate_sequence demo_env (fresh_state [brute_rule] []) brute_rule (failed_logon 7)
        brute_tracker = (None, fresh_state [brute_rule] [])
   \<and> map (step_count) (rule_sequence brute_rule) = [Some 5, Some 1]
   \<and> event_counts short_tracker = [(4625, 4), (4624, 1)]
   \<and> evaluate_sequence demo_env (fresh_state [brute_rule] []) brute_rule (good_logon 7)
        short_tracker = (None, fresh_state [brute_rule] [])
   \<and> map length (fst (detect_batch demo_env (fresh_state [brute_rule] [])
        (map failed_logon [1, 2, 3, 4, 5] @ [good_logon 6]))) = [0, 0, 0, 0, 0, 1]
   \<and> map length (fst (detect_batch demo_env (fresh_state [brute_rule] [])
        (map failed_logon [1, 2, 3, 4] @ [good_logon 5]))) = [0, 0, 0, 0, 0]"
proof -
  obtain a where a: "fst (evaluate_sequence demo_env (fresh_state [brute_rule] []) brute_rule
      (good_logon 7) brute_tracker) = Some a"
    using brute_run(1) by auto
  from sequence_fires_on_final_step
         [of demo_env "fresh_state [brute_rule] []" brute_rule "good_logon 7" brute_tracker a] a
  have first: "2 \<le> length (rule_sequence brute_rule)
      \<and> list_all (\<lambda>st. (case step_count st of None \<Rightarrow> 1 | Some c \<Rightarrow> c)
                         \<le> sum_list (map (id_count brute_tracker) (step_ids st)))
           (rule_sequence brute_rule)
      \<and> Some (event_id (good_logon 7)) \<in> set (step_ids (last (rule_sequence brute_rule)))
      \<and> confidence a = 85"
    by blast
  from sequence_fires_on_final_step
         [of demo_env "fresh_state [brute_rule] []" brute_rule "failed_logon 7" brute_tracker]
       brute_run(2)
  have second: "evaluate_sequence demo_env (fresh_state [brute_rule] []) brute_rule
      (failed_logon 7) brute_tracker = (None, fresh_state [brute_rule] [])"
    by blast
  from sequence_fires_on_final_step
         [of demo_env "fresh_state [brute_rule] []" brute_rule "good_logon 7" short_tracker]
       short_run(1)
  have third: "evaluate_sequence demo_env (fresh_state [brute_rule] []) brute_rule
      (good_logon 7) short_tracker = (None, fresh_state [brute_rule] [])"
    by blast
  have c: "map (step_count) (rule_sequence brute_rule) = [Some 5, Some 1]"
    "event_counts short_tracker = [(4625, 4), (4624, 1)]"
    by code_simp+
  from a first second third brute_run(2) short_run(2,3) c show ?thesis by blast
qed

text \<open>
  Against claim C6 as stated: a failed logon (4625) belongs to the first step of this
  rule, a step that is not the final one, and the final step lists 4625 too. The second
  failed logon satisfies both steps and fires with confidence 85.
\<close>

theorem first_step_event_fires:
  "map step_ids (rule_sequence overlap_rule) = [[Some 4625], [Some 4625, Some 4624]]
   \<and> map step_count (rule_sequence overlap_rule) = [Some 2, Some 1]
   \<and> event_id (failed_logon 2) = 4625
   \<and> map (map confidence)
        (fst (detect_batch demo_env (fresh_state [overlap_rule] [])
                [failed_logon 1, failed_logon 2])) = [[], [85]]"
  by code_simp

subsection \<open>Threshold rules\<close>





























text \<open>
  Two rules on one entity. \<open>get_or_create_tracker\<close> looks the tracker up by entity type,
  entity value and host; the rule is not part of the key. Two THRESHOLD rules of
  threshold 5 that track the host and count event 4740 therefore share one tracker, and
  each of them counts every event into it: after three lockouts the tracker holds 6, and
  the third event, not the fifth, raises an alert of each rule, of confidence 50 and 60.
\<close>

theorem shared_tracker_counts_twice:
  "map rule_threshold [lenient_rule, twin_rule] = [5, 5]
   \<and> map (map confidence)
        (fst (detect_batch demo_env (fresh_state [lenient_rule, twin_rule] [])
                (map lockout_event [1, 2, 3]))) = [[], [], [50, 60]]
   \<and> map event_counts
        (trackers (snd (detect_batch demo_env (fresh_state [lenient_rule, twin_rule] [])
                          (map lockout_event [1, 2, 3])))) = [[(4740, 6)]]"
  by code_simp

subsection \<open>Cooldown\<close>

lemma create_alert_fields:
  assumes "fst (create_alert e s r ev tr ttl descr conf extra) = Some a"
  shows "al_hostname a = hostname ev \<and> al_source_ip a = source_ip ev
     \<and> al_user_name a = or_empty (str_or (user_name ev) (target_user_name ev))
     \<and> al_target_user a = or_empty (target_user_name ev)"
  using assms by (auto simp add: create_alert_def Let_def split: if_splits)

lemma in_cooldown_iff:
  "check_cooldown e s r key etype
     = (0 < cooldown_minutes r
        \<and> list_ex (\<lambda>x. al_rule x = rule_id r
                        \<and> now e - minutes (cooldown_minutes r) \<le> triggered_at x
                        \<and> alert_matches etype key x) (alerts s))"
  by (simp add: check_cooldown_def Let_def not_le)

lemma alerts_bump_total: "alerts (bump_total r s) = alerts s"
  by (simp add: bump_total_def)

lemma standard_entity_matches:
  assumes "fst (create_alert e s r ev tr ttl descr conf extra) = Some a"
    and "tb = ''user_name'' \<or> tb = ''target_user'' \<or> tb = ''source_ip'' \<or> tb = ''hostname''"
    and "truthy (get_entity_value ev tb)"
  shows "alert_matches (str_upper tb) (py_str (get_entity_value ev tb)) a"
proof -
  note f = create_alert_fields [OF assms(1)]
  have up: "str_upper ''user_name'' = ''USER_NAME''" "str_upper ''target_user'' = ''TARGET_USER''"
    "str_upper ''source_ip'' = ''SOURCE_IP''" "str_upper ''hostname'' = ''HOSTNAME''"
    by (simp_all add: str_upper_def upper_char_def ascii_lower_def ascii_upper_def)
  from assms(2) show ?thesis
  proof (elim disjE)
    assume "tb = ''user_name''"
    then show ?thesis
      using assms(3) f
      by (cases "str_or (user_name ev) (target_user_name ev)")
         (simp_all add: get_entity_value_def alert_matches_def up opt_val_def or_empty_def)
  next
    assume "tb = ''target_user''"
    then show ?thesis
      using assms(3) f
      by (cases "target_user_name ev")
         (simp_all add: get_entity_value_def alert_matches_def up opt_val_def or_empty_def)
  next
    assume "tb = ''source_ip''"
    then show ?thesis
      using assms(3) f
      by (cases "source_ip ev")
         (simp_all add: get_entity_value_def alert_matches_def up opt_val_def split: if_splits)
  next
    assume "tb = ''hostname''"
    then show ?thesis
      using assms(3) f
      by (simp add: get_entity_value_def alert_matches_def up)
  qed
qed

text \<open>
  What the cooldown does hold. For a rule with \<open>cooldown_minutes > 0\<close>, \<open>create_alert\<close>
  creates nothing and changes nothing when an alert of the same rule, triggered within
  the last \<open>cooldown_minutes\<close>, matches the tracker's entity key: against \<open>user_name\<close> or
  \<open>target_user\<close> for the entity types USER_NAME and TARGET_USER, against \<open>source_ip\<close> for
  SOURCE_IP, against \<open>hostname\<close> for HOSTNAME, against \<open>user_name\<close> or \<open>hostname\<close> for any
  other type. An alert created for an entity tracked by user name, target user, source ip
  or hostname matches that entity's key. So a second trigger for an entity that the first
  alert matches, inside the cooldown window, creates no alert, and a trigger with
  sufficient confidence at a time when no matching alert lies inside the window creates
  one.
\<close>

lemma cooldown_blocks_matching_entity:
  assumes "0 < cooldown_minutes r"
  shows "(list_ex (\<lambda>x. al_rule x = rule_id r
                       \<and> now e - minutes (cooldown_minutes r) \<le> triggered_at x
                       \<and> alert_matches (entity_type tr) (entity_value tr) x) (alerts s) \<longrightarrow>
            create_alert e s r ev tr ttl descr conf extra = (None, s))
     \<and> (fst (create_alert e s r ev tr ttl descr conf extra) = Some a
          \<and> (tb = ''user_name'' \<or> tb = ''target_user'' \<or> tb = ''source_ip''
               \<or> tb = ''hostname'')
          \<and> truthy (get_entity_value ev tb) \<longrightarrow>
            alert_matches (str_upper tb) (py_str (get_entity_value ev tb)) a)
     \<and> (fst (create_alert e s r ev tr ttl descr conf extra) = Some a
          \<and> alert_matches (entity_type tr2) (entity_value tr2) a
          \<and> now e2 - minutes (cooldown_minutes r) \<le> now e \<longrightarrow>
            create_alert e2 (snd (create_alert e s r ev tr ttl descr conf extra)) r ev2 tr2
                ttl2 descr2 conf2 extra2
              = (None, snd (create_alert e s r ev tr ttl descr conf extra)))
     \<and> (\<not> list_ex (\<lambda>x. al_rule x = rule_id r
                         \<and> now e - minutes (cooldown_minutes r) \<le> triggered_at x
                         \<and> alert_matches (entity_type tr) (entity_value tr) x) (alerts s)
          \<and> min_confidence r \<le> conf \<longrightarrow>
            (\<exists>b. create_alert e s r ev tr ttl descr conf extra
                    = (Some b, bump_total r (s\<lparr>alerts := alerts s @ [b]\<rparr>))
                  \<and> triggered_at b = now e))"
proof -
  have one: "list_ex (\<lambda>x. al_rule x = rule_id r
                       \<and> now e - minutes (cooldown_minutes r) \<le> triggered_at x
                       \<and> alert_matches (entity_type tr) (entity_value tr) x) (alerts s) \<longrightarrow>
            create_alert e s r ev tr ttl descr conf extra = (None, s)"
    using assms by (simp add: create_alert_def in_cooldown_iff)
  have two: "fst (create_alert e s r ev tr ttl descr conf extra) = Some a
          \<and> (tb = ''user_name'' \<or> tb = ''target_user'' \<or> tb = ''source_ip''
               \<or> tb = ''hostname'')
          \<and> truthy (get_entity_value ev tb) \<longrightarrow>
            alert_matches (str_upper tb) (py_str (get_entity_value ev tb)) a"
    using standard_entity_matches by blast
  have three: "fst (create_alert e s r ev tr ttl descr conf extra) = Some a
          \<and> alert_matches (entity_type tr2) (entity_value tr2) a
          \<and> now e2 - minutes (cooldown_minutes r) \<le> now e \<longrightarrow>
            create_alert e2 (snd (create_alert e s r ev tr ttl descr conf extra)) r ev2 tr2
                ttl2 descr2 conf2 extra2
              = (None, snd (create_alert e s r ev tr ttl descr conf extra))"
  proof (intro impI, elim conjE)
    assume a: "fst (create_alert e s r ev tr ttl descr conf extra) = Some a"
      and m: "alert_matches (entity_type tr2) (entity_value tr2) a"
      and t: "now e2 - minutes (cooldown_minutes r) \<le> now e"
    note c = create_alert_Some [OF a]
    have "check_cooldown e2 (snd (create_alert e s r ev tr ttl descr conf extra)) r
            (entity_value tr2) (entity_type tr2)"
      using c m t assms by (simp add: in_cooldown_iff alerts_bump_total)
    then show "create_alert e2 (snd (create_alert e s r ev tr ttl descr conf extra)) r ev2 tr2
                ttl2 descr2 conf2 extra2
              = (None, snd (create_alert e s r ev tr ttl descr conf extra))"
      by (simp add: create_alert_def)
  qed
  have four: "\<not> list_ex (\<lambda>x. al_rule x = rule_id r
                         \<and> now e - minutes (cooldown_minutes r) \<le> triggered_at x
                         \<and> alert_matches (entity_type tr) (entity_value tr) x) (alerts s)
          \<and> min_confidence r \<le> conf \<longrightarrow>
            (\<exists>b. create_alert e s r ev tr ttl descr conf extra
                    = (Some b, bump_total r (s\<lparr>alerts := alerts s @ [b]\<rparr>))
                  \<and> triggered_at b = now e)"
    using create_alert_passes [of e s r tr conf ev ttl descr extra]
    by (auto simp add: in_cooldown_iff)
  from one two three four show ?thesis by blast
qed


lemma dc01_run:
  "0 < cooldown_minutes logclear_rule"
  "map_option confidence
     (fst (create_alert demo_env dc01_state logclear_rule logclear_event dc01_tracker
             (threshold_title logclear_rule dc01_tracker) [] 50 None)) = Some 50"
  "truthy (get_entity_value logclear_event ''hostname'')"
  "py_str (get_entity_value logclear_event ''hostname'') = ''DC01''"
  "str_upper ''hostname'' = ''HOSTNAME''"
  "entity_type dc01_tracker = ''HOSTNAME''"
  "entity_value dc01_tracker = ''DC01''"
  "now (at_time (demo_now + minutes 10)) - minutes (cooldown_minutes logclear_rule)
     \<le> now demo_env"
  "\<not> list_ex (\<lambda>x. al_rule x = rule_id logclear_rule
          \<and> now (at_time (demo_now + minutes 61)) - minutes (cooldown_minutes logclear_rule)
               \<le> triggered_at x
          \<and> alert_matches (entity_type dc01_tracker) (entity_value dc01_tracker) x)
        (alerts dc01_alerted)"
  "min_confidence logclear_rule \<le> 50"
  "now (at_time (demo_now + minutes 61)) = demo_now + minutes 61"
  by code_simp+

lemma cooldown_blocks_matching_entity_witness:
  "0 < cooldown_minutes logclear_rule
   \<and> (\<exists>a. fst (create_alert demo_env dc01_state logclear_rule logclear_event dc01_tracker
                  (threshold_title logclear_rule dc01_tracker) [] 50 None) = Some a
          \<and> alert_matches ''HOSTNAME'' ''DC01'' a)
   \<and> create_alert (at_time (demo_now + minutes 10)) dc01_alerted logclear_rule logclear_event
        dc01_tracker (threshold_title logclear_rule dc01_tracker) [] 50 None
        = (None, dc01_alerted)
   \<and> (\<exists>b. create_alert (at_time (demo_now + minutes 61)) dc01_alerted logclear_rule
              logclear_event dc01_tracker (threshold_title logclear_rule dc01_tracker) [] 50 None
            = (Some b, bump_total logclear_rule
                         (dc01_alerted\<lparr>alerts := alerts dc01_alerted @ [b]\<rparr>))
          \<and> triggered_at b = demo_now + minutes 61)"
proof -
  obtain a where a: "fst (create_alert demo_env dc01_state logclear_rule logclear_event
      dc01_tracker (threshold_title logclear_rule dc01_tracker) [] 50 None) = Some a"
    using dc01_run(2) by auto
  note first = cooldown_blocks_matching_entity [OF dc01_run(1),
      of demo_env dc01_tracker dc01_state logclear_event
         "threshold_title logclear_rule dc01_tracker" "[]" 50 None a "''hostname''"
         dc01_tracker "at_time (demo_now + minutes 10)" logclear_event
         "threshold_title logclear_rule dc01_tracker" "[]" 50 None]
  have m: "alert_matches ''HOSTNAME'' ''DC01'' a"
    using first a dc01_run(3,4,5) by simp
  have blocked: "create_alert (at_time (demo_now + minutes 10)) dc01_alerted logclear_rule
      logclear_event dc01_tracker (threshold_title logclear_rule dc01_tracker) [] 50 None
      = (None, dc01_alerted)"
    using first a m dc01_run(6,7,8) by (simp add: dc01_alerted_def)
  note later = cooldown_blocks_matching_entity [OF dc01_run(1),
      of "at_time (demo_now + minutes 61)" dc01_tracker dc01_alerted logclear_event
         "threshold_title logclear_rule dc01_tracker" "[]" 50 None]
  have again: "\<exists>b. create_alert (at_time (demo_now + minutes 61)) dc01_alerted logclear_rule
              logclear_event dc01_tracker (threshold_title logclear_rule dc01_tracker) [] 50 None
            = (Some b, bump_total logclear_rule
                         (dc01_alerted\<lparr>alerts := alerts dc01_alerted @ [b]\<rparr>))
          \<and> triggered_at b = demo_now + minutes 61"
    using later dc01_run(9,10,11) by simp
  from dc01_run(1) a m blocked again show ?thesis by blast
qed

text \<open>
  Claim C5 says that two qualifying triggers for the same rule and the same entity
  inside the cooldown window produce exactly one alert. \<open>check_cooldown\<close> ("Check if rule
  is in cooldown for this entity") looks for the entity key in the column of the alert
  that stores it for the entity types USER_NAME, TARGET_USER, SOURCE_IP and HOSTNAME; for
  every other type it looks in \<open>user_name\<close> and \<open>hostname\<close>, and an alert stores neither
  the process nor the service of its entity. Here a rule with a cooldown of 30 minutes
  tracks by process, as \<open>_get_entity_value\<close> provides for. Two starts of the same process
  are processed at the same instant: the entity key is the process name, which is neither
  the user name nor the hostname of the first alert, and the second event raises a second
  alert of the same rule for the same entity.
\<close>

theorem same_process_alerts_twice:
  "cooldown_minutes process_rule = 30
   \<and> map (\<lambda>ev. py_str (get_entity_value ev (rule_track_by (rule_logic process_rule))))
        [process_start 1, process_start 2] = [''mimikatz.exe'', ''mimikatz.exe'']
   \<and> map (map confidence)
        (fst (detect_batch demo_env (fresh_state [process_rule] [])
                [process_start 1, process_start 2])) = [[50], [60]]
   \<and> map entity_value
        (trackers (snd (detect_batch demo_env (fresh_state [process_rule] [])
                          [process_start 1, process_start 2]))) = [''mimikatz.exe'']"
  by code_simp

subsection \<open>Processing an event twice\<close>






















section \<open>Properties of the query language\<close>

subsection \<open>Time values\<close>







subsection \<open>The shape of a parsed query\<close>

lemma where_clause_keeps:
  assumes "where_clause t a ts = Inr w"
  shows "command (fst w) = command a \<and> ast_offset (fst w) = ast_offset a
         \<and> ast_limit (fst w) = ast_limit a"
  using assms unfolding where_clause_def
  by (auto elim!: bind_InrE split: if_splits)

lemma order_clause_keeps:
  assumes "order_clause a ts = Inr w"
  shows "command (fst w) = command a \<and> ast_offset (fst w) = ast_offset a
         \<and> ast_limit (fst w) = ast_limit a"
  using assms unfolding order_clause_def Let_def
  by (auto elim!: bind_InrE split: if_splits)

lemma limit_clause_keeps:
  assumes "limit_clause a ts = Inr w"
  shows "command (fst w) = command a \<and> ast_offset (fst w) = ast_offset a"
  using assms unfolding limit_clause_def
  by (auto elim!: bind_InrE split: if_splits option.splits)

lemma by_clause_keeps:
  assumes "by_clause a ts = Inr w"
  shows "command (fst w) = command a \<and> ast_offset (fst w) = ast_offset a
         \<and> ast_limit (fst w) = ast_limit a"
  using assms unfolding by_clause_def
  by (auto elim!: bind_InrE)

lemma parse_search_shape:
  assumes "parse_search t ts = Inr ast"
  shows "command ast = ''SEARCH'' \<and> ast_offset ast = Some 0"
  using assms unfolding parse_search_def Let_def
  by (auto elim!: bind_InrE dest!: where_clause_keeps order_clause_keeps limit_clause_keeps)

lemma parse_hunt_shape:
  assumes "parse_hunt t ts = Inr ast"
  shows "command ast = ''HUNT''"
  using assms unfolding parse_hunt_def Let_def
  by (auto elim!: bind_InrE dest!: where_clause_keeps by_clause_keeps limit_clause_keeps
      split: if_splits)

lemma parse_aggregate_shape:
  assumes "parse_aggregate t ts = Inr ast"
  shows "command ast = ''AGGREGATE'' \<and> ast_limit ast = None"
  using assms unfolding parse_aggregate_def Let_def
  by (auto elim!: bind_InrE dest!: where_clause_keeps by_clause_keeps
      split: if_splits)

lemma parse_shape:
  assumes "parse t ts = Inr ast"
  shows "(command ast = ''SEARCH'' \<and> ast_offset ast = Some 0) \<or> command ast = ''HUNT''
         \<or> (command ast = ''AGGREGATE'' \<and> ast_limit ast = None)"
  using assms unfolding parse_def Let_def
  by (auto dest: parse_search_shape parse_hunt_shape parse_aggregate_shape split: if_splits)

lemma override_limit_keeps:
  "command (override_limit c a) = command a \<and> ast_offset (override_limit c a) = ast_offset a
   \<and> ast_conditions (override_limit c a) = ast_conditions a"
  by (simp add: override_limit_def split: option.splits)

lemma strip_blank:
  assumes "str_strip q = []"
  shows "dropWhile is_space q = []"
proof (rule ccontr)
  assume n: "dropWhile is_space q \<noteq> []"
  have "dropWhile is_space (rev (dropWhile is_space q)) = []"
    using assms by (simp add: str_strip_def)
  then have "\<forall>x \<in> set (dropWhile is_space q). is_space x"
    by simp
  then have "is_space (hd (dropWhile is_space q))"
    using n by simp
  then show False
    using n hd_dropWhile by blast
qed

lemma parse_nonblank:
  assumes "parse t (tokenize q) = Inr ast"
  shows "\<not> (q = [] \<or> str_strip q = [])"
proof
  assume "q = [] \<or> str_strip q = []"
  then have "str_strip q = []"
    by (auto simp: str_strip_def)
  then have d: "dropWhile is_space q = []"
    by (rule strip_blank)
  have "tokenize q = [(EOF, None)]"
    by (simp only: tokenize.simps [of q] d list.case)
  then show False
    using assms by (simp add: parse_def current_token_def)
qed

lemma execute_pql_of_parse:
  assumes "parse t (tokenize q) = Inr ast"
  shows "execute_pql st t q caller = execute st t (override_limit caller ast)"
  using assms parse_nonblank [OF assms] by (simp add: execute_pql_def)

lemma override_limit_missing:
  assumes "ast_limit a = None" and "ast_limit (override_limit c a) = Some l"
  shows "1 \<le> l"
  using assms by (auto simp: override_limit_def split: option.splits if_splits)

subsection \<open>The stages of the executor\<close>

lemma qs_slice_length:
  assumes "qs_slice 0 l xs = Inr ys"
  shows "int (length ys) \<le> l"
  using assms by (auto simp: qs_slice_def split: if_splits)

lemma finish_search_length:
  assumes "finish_search st a rs = Inr rows" and "ast_offset a = Some 0"
    and "ast_limit a = Some l"
  shows "int (length rows) \<le> l"
  using assms unfolding finish_search_def Let_def
  by (auto elim!: bind_InrE dest!: qs_slice_length)

lemma finish_hunt_length:
  assumes "finish_hunt st a rs = Inr rows" and "ast_limit a = Some l"
  shows "int (length rows) \<le> l"
  using assms unfolding finish_hunt_def
  by (auto elim!: bind_InrE dest!: qs_slice_length)

lemma pair_filter_empty:
  assumes "guarded_filter st (FPair a b) rs = Inr rs'"
  shows "rs' = []"
  using assms by (cases a) (auto simp: guarded_filter_def qs_filter_def)

lemma grouped_empty:
  assumes "grouped st g anns [] = Inr out"
    and "\<forall>f anns out. group_rows st f anns [] = Inr out \<longrightarrow> out = []"
  shows "out = []"
  using assms by (auto simp: grouped_def split: option.splits if_splits)

lemma finish_aggregate_empty:
  assumes "finish_aggregate st a [] = Inr rows"
    and "\<forall>f anns out. group_rows st f anns [] = Inr out \<longrightarrow> out = []"
  shows "rows = []"
proof -
  obtain out where o: "grouped st (ast_group_by a) (aggregate_annotations a) [] = Inr out"
    and s: "qs_slice 0 100 out = Inr rows"
    using assms(1) unfolding finish_aggregate_def by (elim bind_InrE)
  have "out = []"
    using o assms(2) by (rule grouped_empty)
  then show ?thesis
    using s by (simp add: qs_slice_def)
qed

lemma execute_aggregate_empty:
  assumes "execute_aggregate st t a = Inr rows"
    and "\<forall>f anns out. group_rows st f anns [] = Inr out \<longrightarrow> out = []"
  shows "rows = []"
proof -
  obtain rs q rs' where "guarded_filter st (FPair (fst q) (snd q)) rs = Inr rs'"
    and f: "finish_aggregate st a rs' = Inr rows"
    using assms(1) unfolding execute_aggregate_def by (elim bind_InrE)
  then have "rs' = []"
    using pair_filter_empty by blast
  then show ?thesis
    using f assms(2) finish_aggregate_empty by blast
qed

lemma build_loop_drops:
  "build_loop st t cs q lg hv
     = build_loop st t (filter (\<lambda>c. \<not> unknown_field st c) cs) q lg hv"
proof (induction cs arbitrary: q lg hv)
  case Nil
  show ?case by simp
next
  case (Cons c cs)
  show ?case
  proof (cases c)
    case (Logical l)
    then show ?thesis
      using Cons.IH by (simp add: unknown_field_def)
  next
    case (Cond f opr v)
    show ?thesis
    proof (cases "is_valid_field st (map_field f)")
      case True
      then show ?thesis
        using Cond Cons.IH
        by (simp add: unknown_field_def Let_def split: sum.splits option.splits)
    next
      case False
      then show ?thesis
        using Cond Cons.IH by (simp add: unknown_field_def Let_def)
    qed
  qed
qed

lemma build_loop_all_unknown:
  assumes "all_unknown st cs"
  shows "build_loop st t cs q lg hv = Inr (q, hv)"
  using assms
proof (induction cs arbitrary: lg)
  case Nil
  show ?case by simp
next
  case (Cons c cs)
  then show ?case
    by (cases c) (simp_all add: all_unknown_def unknown_field_def Let_def)
qed

lemma filtered_rows_all_unknown:
  assumes "conditions_of a \<noteq> []" and "all_unknown st (conditions_of a)"
  shows "filtered_rows st t a = Inr []"
  using assms by (simp add: filtered_rows_def build_q_objects_def build_loop_all_unknown)

lemma finish_search_nothing:
  assumes "ast_offset a = Some 0" and "ast_limit a = Some l" and "0 \<le> l"
    and "order_rows st (search_order a) [] = Inr []"
  shows "finish_search st a [] = Inr []"
  using assms by (simp add: finish_search_def qs_slice_def)

lemma finish_hunt_nothing:
  assumes "ast_limit a = Some l" and "0 \<le> l"
    and "grouped st (ast_group_by a) hunt_annotations [] = Inr []"
  shows "finish_hunt st a [] = Inr []"
  using assms by (simp add: finish_hunt_def qs_slice_def)

lemma finish_aggregate_nothing:
  assumes "grouped st (ast_group_by a) (aggregate_annotations a) [] = Inr []"
  shows "finish_aggregate st a [] = Inr []"
  using assms by (simp add: finish_aggregate_def qs_slice_def)

lemma execute_aggregate_all_unknown:
  assumes "conditions_of a \<noteq> []" and "all_unknown st (conditions_of a)"
    and "within_rows st t a = Inr rs"
  shows "execute_aggregate st t a = finish_aggregate st a []"
  using assms
  by (simp add: execute_aggregate_def build_q_objects_def build_loop_all_unknown
      guarded_filter_def qs_filter_def)

lemma finish_search_empty:
  assumes "finish_search st a [] = Inr rows"
    and "\<forall>f out. order_rows st f [] = Inr out \<longrightarrow> out = []"
  shows "rows = []"
proof -
  obtain ordered where o: "order_rows st (search_order a) [] = Inr ordered"
    and r: "(let limit = (case ast_limit a of None \<Rightarrow> 100 | Some l \<Rightarrow> l);
                 offset = (case ast_offset a of None \<Rightarrow> 0 | Some k \<Rightarrow> k)
             in case qs_slice offset (offset + limit) ordered of
                  Inl x \<Rightarrow> Inl x
                | Inr page \<Rightarrow> Inr (map (row_values st) page)) = Inr rows"
    using assms(1) unfolding finish_search_def by (elim bind_InrE)
  have "ordered = []"
    using o assms(2) by blast
  then show ?thesis
    using r by (auto simp: Let_def qs_slice_def elim!: bind_InrE split: if_splits)
qed

lemma finish_hunt_empty:
  assumes "finish_hunt st a [] = Inr rows"
    and "\<forall>f anns out. group_rows st f anns [] = Inr out \<longrightarrow> out = []"
  shows "rows = []"
proof -
  obtain out where o: "grouped st (ast_group_by a) hunt_annotations [] = Inr out"
    and s: "qs_slice 0 (case ast_limit a of None \<Rightarrow> 500 | Some l \<Rightarrow> l) out = Inr rows"
    using assms(1) unfolding finish_hunt_def by (elim bind_InrE)
  have "out = []"
    using o assms(2) by (rule grouped_empty)
  then show ?thesis
    using s by (auto simp: qs_slice_def split: if_splits)
qed

subsection \<open>The example store\<close>

lemma demo_store_groups_nothing:
  "\<forall>f anns out. group_rows demo_store f anns [] = Inr out \<longrightarrow> out = []"
  by (auto simp: demo_store_def demo_group_def split: if_splits)

lemma demo_store_orders_nothing:
  "\<forall>f out. order_rows demo_store f [] = Inr out \<longrightarrow> out = []"
  by (auto simp: demo_store_def demo_order_def split: if_splits)

subsection \<open>The size of a result\<close>

lemma limit_clause_limit:
  assumes "limit_clause a ts = Inr w" and "ast_limit a \<noteq> None"
  shows "ast_limit (fst w) \<noteq> None"
  using assms unfolding limit_clause_def
  by (auto elim!: bind_InrE split: if_splits option.splits)

lemma parse_search_limit:
  assumes "parse_search t ts = Inr ast"
  shows "ast_limit ast \<noteq> None"
proof -
  obtain ob l where "ast_limit (fst ob) = Some 100" "limit_clause (fst ob) (snd ob) = Inr l"
    "ast = fst l"
    using assms unfolding parse_search_def Let_def
    by (auto elim!: bind_InrE dest!: where_clause_keeps order_clause_keeps)
  then show ?thesis
    using limit_clause_limit [of "fst ob" "snd ob" l] by simp
qed

lemma parse_hunt_limit:
  assumes "parse_hunt t ts = Inr ast"
  shows "ast_limit ast \<noteq> None"
proof -
  obtain b l where "ast_limit (fst b) = Some 500" "limit_clause (fst b) (snd b) = Inr l"
    "ast = fst l"
    using assms unfolding parse_hunt_def Let_def
    by (auto elim!: bind_InrE dest!: where_clause_keeps by_clause_keeps split: if_splits)
  then show ?thesis
    using limit_clause_limit [of "fst b" "snd b" l] by simp
qed

lemma parse_carries_limit:
  assumes "parse t ts = Inr ast" and "command ast \<noteq> ''AGGREGATE''"
  shows "ast_limit ast \<noteq> None"
  using assms unfolding parse_def Let_def
  by (auto dest: parse_search_limit parse_hunt_limit parse_aggregate_shape split: if_splits)

lemma override_limit_value:
  "ast_limit (override_limit caller ast)
     = (case caller of
          None \<Rightarrow> ast_limit ast
        | Some c \<Rightarrow>
            if 1 \<le> c \<and> c \<le> 5000 \<and> (case ast_limit ast of None \<Rightarrow> True | Some p \<Rightarrow> c < p)
            then Some c else ast_limit ast)"
  by (simp add: override_limit_def split: option.splits)

lemma rows_within_carried_limit:
  assumes "parse t (tokenize q) = Inr ast"
    and "ast_limit (override_limit caller ast) = Some l"
    and "execute_pql st t q caller = Inr rows"
    and "\<forall>f anns out. group_rows st f anns [] = Inr out \<longrightarrow> out = []"
  shows "int (length rows) \<le> l \<and> (command ast = ''AGGREGATE'' \<longrightarrow> rows = [])"
proof -
  define a where "a = override_limit caller ast"
  have ex: "execute st t a = Inr rows"
    using execute_pql_of_parse [OF assms(1), of st caller] assms(3) unfolding a_def by simp
  have keep: "command a = command ast" "ast_offset a = ast_offset ast"
    unfolding a_def by (simp_all add: override_limit_keeps)
  have lim: "ast_limit a = Some l"
    using assms(2) unfolding a_def .
  consider (search) "command ast = ''SEARCH''" "ast_offset ast = Some 0"
    | (hunt) "command ast = ''HUNT''"
    | (aggregate) "command ast = ''AGGREGATE''" "ast_limit ast = None"
    using parse_shape [OF assms(1)] by (elim disjE conjE)
  then show ?thesis
  proof cases
    case search
    then have "execute_search st t a = Inr rows"
      using ex keep by (simp add: execute_def)
    then obtain rs where "finish_search st a rs = Inr rows"
      unfolding execute_search_def by (elim bind_InrE)
    then have "int (length rows) \<le> l"
      using search(2) keep(2) lim finish_search_length by metis
    then show ?thesis
      using search(1) by simp
  next
    case hunt
    then have "execute_hunt st t a = Inr rows"
      using ex keep by (simp add: execute_def)
    then obtain rs where "finish_hunt st a rs = Inr rows"
      unfolding execute_hunt_def by (elim bind_InrE)
    then have "int (length rows) \<le> l"
      using lim finish_hunt_length by metis
    then show ?thesis
      using hunt by simp
  next
    case aggregate
    then have "execute_aggregate st t a = Inr rows"
      using ex keep by (simp add: execute_def)
    then have "rows = []"
      using assms(4) by (rule execute_aggregate_empty)
    moreover have "1 \<le> l"
      using aggregate(2) assms(2) by (rule override_limit_missing)
    ultimately show ?thesis
      by simp
  qed
qed

lemma aggregate_rows_empty:
  assumes "parse t (tokenize q) = Inr ast"
    and "execute_pql st t q caller = Inr rows"
    and "\<forall>f anns out. group_rows st f anns [] = Inr out \<longrightarrow> out = []"
    and "command ast = ''AGGREGATE''"
  shows "rows = []"
proof -
  have "execute st t (override_limit caller ast) = Inr rows"
    using execute_pql_of_parse [OF assms(1), of st caller] assms(2) by simp
  then have "execute_aggregate st t (override_limit caller ast) = Inr rows"
    using assms(4) by (simp add: execute_def override_limit_keeps)
  then show ?thesis
    using assms(3) by (rule execute_aggregate_empty)
qed

text \<open>
  Claim C2. Let \<open>ast\<close> be the tree of a parsed query \<open>q\<close> (a SEARCH, HUNT or AGGREGATE
  query, the only ones that parse) and \<open>rows\<close> a result that \<open>execute_pql\<close> returns for
  it. \<open>execute_pql\<close> executes the tree with the limit it carries after the override: the
  caller's limit \<open>c\<close> when \<open>1 \<le> c \<le> 5000\<close> and the tree has no limit or a larger one,
  the parsed limit otherwise. The result has at most that many rows; hence at most the
  parsed limit, when there is one, and at most the caller's limit, when that is between 1
  and 5000. A SEARCH or HUNT tree always carries a limit (100 or 500 when the query names
  none), and the queryset is sliced at it. An AGGREGATE tree carries no parsed limit, and
  \<open>_execute_aggregate\<close> never reads the limit: it slices at 100. Its bound holds because it
  hands the pair built by \<open>_build_q_objects\<close> to \<open>filter\<close>, which leaves it no row to
  return: an AGGREGATE query that returns at all returns the empty list. The store is one
  that groups an empty queryset into no rows.
\<close>

theorem result_rows_within_limit:
  assumes "parse t (tokenize q) = Inr ast"
    and "execute_pql st t q caller = Inr rows"
    and "\<forall>f anns out. group_rows st f anns [] = Inr out \<longrightarrow> out = []"
  shows "execute_pql st t q caller = execute st t (override_limit caller ast)
     \<and> ast_limit (override_limit caller ast)
         = (case caller of
              None \<Rightarrow> ast_limit ast
            | Some c \<Rightarrow>
                if 1 \<le> c \<and> c \<le> 5000 \<and> (case ast_limit ast of None \<Rightarrow> True | Some p \<Rightarrow> c < p)
                then Some c else ast_limit ast)
     \<and> (\<forall>l. ast_limit (override_limit caller ast) = Some l \<longrightarrow> int (length rows) \<le> l)
     \<and> (\<forall>p. ast_limit ast = Some p \<longrightarrow> int (length rows) \<le> p)
     \<and> (\<forall>c. caller = Some c \<and> 1 \<le> c \<and> c \<le> 5000 \<longrightarrow> int (length rows) \<le> c)
     \<and> (command ast \<noteq> ''AGGREGATE'' \<longrightarrow> ast_limit ast \<noteq> None)
     \<and> (command ast = ''AGGREGATE'' \<longrightarrow> ast_limit ast = None \<and> rows = [])"
proof -
  note ov = override_limit_value [of caller ast]
  have A: "execute_pql st t q caller = execute st t (override_limit caller ast)"
    using assms(1) by (rule execute_pql_of_parse)
  have C: "\<forall>l. ast_limit (override_limit caller ast) = Some l \<longrightarrow> int (length rows) \<le> l"
    using rows_within_carried_limit [OF assms(1) _ assms(2,3)] by blast
  have D: "\<forall>p. ast_limit ast = Some p \<longrightarrow> int (length rows) \<le> p"
  proof (intro allI impI)
    fix p assume p: "ast_limit ast = Some p"
    then obtain l where "ast_limit (override_limit caller ast) = Some l" "l \<le> p"
      using ov by (cases caller) (auto split: if_splits)
    then show "int (length rows) \<le> p"
      using C by fastforce
  qed
  have E: "\<forall>c. caller = Some c \<and> 1 \<le> c \<and> c \<le> 5000 \<longrightarrow> int (length rows) \<le> c"
  proof (intro allI impI)
    fix c assume c: "caller = Some c \<and> 1 \<le> c \<and> c \<le> 5000"
    then obtain l where "ast_limit (override_limit caller ast) = Some l" "l \<le> c"
      using ov by (cases "ast_limit ast") (auto split: if_splits)
    then show "int (length rows) \<le> c"
      using C by fastforce
  qed
  have F: "command ast \<noteq> ''AGGREGATE'' \<longrightarrow> ast_limit ast \<noteq> None"
    using parse_carries_limit [OF assms(1)] by blast
  have G: "command ast = ''AGGREGATE'' \<longrightarrow> ast_limit ast = None \<and> rows = []"
    using parse_shape [OF assms(1)] aggregate_rows_empty [OF assms] by auto
  from A ov C D E F G show ?thesis by blast
qed

theorem result_rows_within_limit_witness:
  "parse demo_now (tokenize limit_query) = Inr limit_ast
   \<and> ast_limit limit_ast = Some 2
   \<and> ast_limit (override_limit (Some 1) limit_ast) = Some 1
   \<and> length (all_rows demo_store) = 3
   \<and> execute_pql demo_store demo_now limit_query (Some 1) = Inr [Values (lockout_event 3)]
   \<and> int (length [Values (lockout_event 3)]) \<le> 1
   \<and> ast_limit (override_limit (Some 100) limit_ast) = Some 2
   \<and> execute_pql demo_store demo_now limit_query (Some 100)
       = Inr [Values (lockout_event 3), Values (lockout_event 2)]
   \<and> int (length [Values (lockout_event 3), Values (lockout_event 2)]) \<le> 2
   \<and> command aggregate_ast = ''AGGREGATE'' \<and> ast_limit aggregate_ast = None
   \<and> parse demo_now (tokenize aggregate_query) = Inr aggregate_ast
   \<and> execute_pql demo_store demo_now aggregate_query (Some 5) = Inr []"
proof -
  have a: "parse demo_now (tokenize limit_query) = Inr limit_ast"
    by code_simp
  have b: "ast_limit limit_ast = Some 2" "ast_limit (override_limit (Some 1) limit_ast) = Some 1"
    "ast_limit (override_limit (Some 100) limit_ast) = Some 2"
    by code_simp+
  have c: "execute_pql demo_store demo_now limit_query (Some 1) = Inr [Values (lockout_event 3)]"
    by code_simp
  have c': "execute_pql demo_store demo_now limit_query (Some 100)
             = Inr [Values (lockout_event 3), Values (lockout_event 2)]"
    by code_simp
  have d: "length (all_rows demo_store) = 3"
    by (simp add: demo_store_def)
  have e: "parse demo_now (tokenize aggregate_query) = Inr aggregate_ast"
    "command aggregate_ast = ''AGGREGATE''"
    by code_simp+
  have h: "execute_pql demo_store demo_now aggregate_query (Some 5) = Inr []"
    by code_simp
  have i: "ast_limit aggregate_ast = None"
    using result_rows_within_limit [OF e(1) h demo_store_groups_nothing] e(2) by blast
  have "int (length [Values (lockout_event 3)]) \<le> 1"
    using result_rows_within_limit [OF a c demo_store_groups_nothing] by simp
  moreover have "int (length [Values (lockout_event 3), Values (lockout_event 2)]) \<le> 2"
    using result_rows_within_limit [OF a c' demo_store_groups_nothing] b(1) by simp
  ultimately show ?thesis
    using a b c c' d e h i by simp
qed

subsection \<open>Conditions on unknown fields\<close>

text \<open>
  Claim C3, amended. Let \<open>ast\<close> be the tree of a parsed query \<open>q\<close> with a non-empty
  condition list. \<open>_build_q_objects\<close> skips each condition whose field, after the alias
  mapping, is not in the known schema: it returns what its loop returns on the list
  without these conditions. If every condition names an unknown field, it returns no
  filter and the flag \<open>False\<close>, and the query never returns a row. It returns the empty
  result when the rest of the query executes: for SEARCH, the limit is not negative and
  the store accepts the ordering; for HUNT, the limit is not negative and the store
  accepts the grouping; for AGGREGATE, the \<open>WITHIN\<close> filter and the grouping succeed.
  The store is one that orders and groups an empty queryset into no rows.
\<close>

theorem unknown_fields_are_dropped:
  assumes "parse t (tokenize q) = Inr ast"
    and "conditions_of ast \<noteq> []"
    and "\<forall>f out. order_rows st f [] = Inr out \<longrightarrow> out = []"
    and "\<forall>f anns out. group_rows st f anns [] = Inr out \<longrightarrow> out = []"
  shows "build_q_objects st t (conditions_of ast)
           = build_loop st t (filter (\<lambda>c. \<not> unknown_field st c) (conditions_of ast))
               None ''AND'' False
         \<and> (all_unknown st (conditions_of ast) \<longrightarrow>
              build_q_objects st t (conditions_of ast) = Inr (None, False)
              \<and> (\<forall>rows. execute_pql st t q caller = Inr rows \<longrightarrow> rows = [])
              \<and> (command ast = ''SEARCH''
                   \<and> (\<exists>l. ast_limit (override_limit caller ast) = Some l \<and> 0 \<le> l)
                   \<and> order_rows st (search_order (override_limit caller ast)) [] = Inr []
                  \<longrightarrow> execute_pql st t q caller = Inr [])
              \<and> (command ast = ''HUNT''
                   \<and> (\<exists>l. ast_limit (override_limit caller ast) = Some l \<and> 0 \<le> l)
                   \<and> grouped st (ast_group_by (override_limit caller ast)) hunt_annotations []
                       = Inr []
                  \<longrightarrow> execute_pql st t q caller = Inr [])
              \<and> (command ast = ''AGGREGATE''
                   \<and> (\<exists>rs. within_rows st t (override_limit caller ast) = Inr rs)
                   \<and> grouped st (ast_group_by (override_limit caller ast))
                         (aggregate_annotations (override_limit caller ast)) []
                       = Inr []
                  \<longrightarrow> execute_pql st t q caller = Inr []))"
proof -
  define a where "a = override_limit caller ast"
  have run: "execute_pql st t q caller = execute st t a"
    unfolding a_def using assms(1) by (rule execute_pql_of_parse)
  have keep: "command a = command ast" "ast_offset a = ast_offset ast"
    "conditions_of a = conditions_of ast"
    unfolding a_def by (simp_all add: override_limit_keeps conditions_of_def)
  have shape: "(command ast = ''SEARCH'' \<and> ast_offset ast = Some 0) \<or> command ast = ''HUNT''
               \<or> (command ast = ''AGGREGATE'' \<and> ast_limit ast = None)"
    using assms(1) by (rule parse_shape)
  have drops: "build_q_objects st t (conditions_of ast)
           = build_loop st t (filter (\<lambda>c. \<not> unknown_field st c) (conditions_of ast))
               None ''AND'' False"
    using assms(2) build_loop_drops [of st t "conditions_of ast" None "''AND''" False]
    by (simp add: build_q_objects_def)
  {
    assume u: "all_unknown st (conditions_of ast)"
    have ua: "all_unknown st (conditions_of a)" and na: "conditions_of a \<noteq> []"
      using u assms(2) keep(3) by simp_all
    have b: "build_q_objects st t (conditions_of ast) = Inr (None, False)"
      using assms(2) u by (simp add: build_q_objects_def build_loop_all_unknown)
    have f: "filtered_rows st t a = Inr []"
      using na ua by (rule filtered_rows_all_unknown)
    have s: "command ast = ''SEARCH'' \<Longrightarrow> execute st t a = finish_search st a []"
      using keep(1) f by (simp add: execute_def execute_search_def)
    have h: "command ast = ''HUNT'' \<Longrightarrow> execute st t a = finish_hunt st a []"
      using keep(1) f by (simp add: execute_def execute_hunt_def)
    have g: "command ast = ''AGGREGATE'' \<Longrightarrow> within_rows st t a = Inr rs
               \<Longrightarrow> execute st t a = finish_aggregate st a []" for rs
      using keep(1) execute_aggregate_all_unknown [OF na ua] by (simp add: execute_def)
    have none: "rows = []" if r: "execute st t a = Inr rows" for rows
    proof -
      consider (search) "command ast = ''SEARCH''" | (hunt) "command ast = ''HUNT''"
        | (aggregate) "command ast = ''AGGREGATE''"
        using shape by (elim disjE conjE)
      then show ?thesis
      proof cases
        case search
        then show ?thesis
          using r s assms(3) finish_search_empty by metis
      next
        case hunt
        then show ?thesis
          using r h assms(4) finish_hunt_empty by metis
      next
        case aggregate
        then have "execute_aggregate st t a = Inr rows"
          using r keep(1) by (simp add: execute_def)
        then show ?thesis
          using assms(4) by (rule execute_aggregate_empty)
      qed
    qed
    have s_ok: "execute st t a = Inr []"
      if "command ast = ''SEARCH''" "ast_limit a = Some l" "0 \<le> l"
        "order_rows st (search_order a) [] = Inr []" for l
    proof -
      have "ast_offset a = Some 0"
        using shape that(1) keep(2) by auto
      then have "finish_search st a [] = Inr []"
        using that(2,3,4) by (rule finish_search_nothing)
      then show ?thesis
        using s [OF that(1)] by simp
    qed
    have h_ok: "execute st t a = Inr []"
      if "command ast = ''HUNT''" "ast_limit a = Some l" "0 \<le> l"
        "grouped st (ast_group_by a) hunt_annotations [] = Inr []" for l
      using h [OF that(1)] finish_hunt_nothing [OF that(2,3,4)] by simp
    have g_ok: "execute st t a = Inr []"
      if "command ast = ''AGGREGATE''" "within_rows st t a = Inr rs"
        "grouped st (ast_group_by a) (aggregate_annotations a) [] = Inr []" for rs
      using g [OF that(1,2)] finish_aggregate_nothing [OF that(3)] by simp
    have "build_q_objects st t (conditions_of ast) = Inr (None, False)
          \<and> (\<forall>rows. execute_pql st t q caller = Inr rows \<longrightarrow> rows = [])
          \<and> (command ast = ''SEARCH''
               \<and> (\<exists>l. ast_limit a = Some l \<and> 0 \<le> l)
               \<and> order_rows st (search_order a) [] = Inr []
              \<longrightarrow> execute_pql st t q caller = Inr [])
          \<and> (command ast = ''HUNT''
               \<and> (\<exists>l. ast_limit a = Some l \<and> 0 \<le> l)
               \<and> grouped st (ast_group_by a) hunt_annotations [] = Inr []
              \<longrightarrow> execute_pql st t q caller = Inr [])
          \<and> (command ast = ''AGGREGATE''
               \<and> (\<exists>rs. within_rows st t a = Inr rs)
               \<and> grouped st (ast_group_by a) (aggregate_annotations a) [] = Inr []
              \<longrightarrow> execute_pql st t q caller = Inr [])"
      unfolding run using b none s_ok h_ok g_ok by blast
  }
  then show ?thesis
    using drops unfolding a_def by blast
qed

theorem unknown_fields_are_dropped_witness:
  "parse demo_now (tokenize bogus_query) = Inr bogus_ast
   \<and> conditions_of bogus_ast \<noteq> [] \<and> all_unknown demo_store (conditions_of bogus_ast)
   \<and> length (all_rows demo_store) = 3
   \<and> build_q_objects demo_store demo_now (conditions_of bogus_ast) = Inr (None, False)
   \<and> execute_pql demo_store demo_now bogus_query (Some 100) = Inr []"
proof -
  have a: "parse demo_now (tokenize bogus_query) = Inr bogus_ast"
    by code_simp
  have b: "conditions_of bogus_ast \<noteq> []"
    by code_simp
  have u: "all_unknown demo_store (conditions_of bogus_ast)"
    by code_simp
  have c: "command bogus_ast = ''SEARCH''"
    by (simp add: bogus_ast_def limit_ast_def)
  have "ast_limit (override_limit (Some 100) bogus_ast) = Some 100"
    by code_simp
  then have l: "\<exists>l. ast_limit (override_limit (Some 100) bogus_ast) = Some l \<and> 0 \<le> l"
    by simp
  have o: "order_rows demo_store (search_order (override_limit (Some 100) bogus_ast)) []
             = Inr []"
    by code_simp
  have d: "length (all_rows demo_store) = 3"
    by (simp add: demo_store_def)
  from unknown_fields_are_dropped
         [OF a b demo_store_orders_nothing demo_store_groups_nothing, of "Some 100"]
  have "build_q_objects demo_store demo_now (conditions_of bogus_ast) = Inr (None, False)
        \<and> execute_pql demo_store demo_now bogus_query (Some 100) = Inr []"
    using u c l o by blast
  then show ?thesis
    using a b u d by simp
qed

text \<open>
  The claim as written fails for a query whose remaining clauses do not execute on the
  empty queryset: with the limit \<open>-5\<close> the search on the unknown field \<open>bogus_field\<close>
  raises \<open>ValueError\<close> where the claim promises the empty result.
\<close>

theorem negative_limit_raises:
  "parse demo_now (tokenize negative_query) = Inr negative_ast
   \<and> conditions_of negative_ast \<noteq> [] \<and> all_unknown demo_store (conditions_of negative_ast)
   \<and> execute_pql demo_store demo_now negative_query (Some 100) = Inl ValueError"
proof -
  have "parse demo_now (tokenize negative_query) = Inr negative_ast"
    by code_simp
  moreover have "conditions_of negative_ast \<noteq> []"
    by code_simp
  moreover have "all_unknown demo_store (conditions_of negative_ast)"
    by code_simp
  moreover have "execute_pql demo_store demo_now negative_query (Some 100) = Inl ValueError"
    by code_simp
  ultimately show ?thesis
    by simp
qed

end
